theory Spec2Isabelle
  imports Complex_Main "HOL-Library.Sublist"
begin

section \<open>The JavaScript runtime used by the scheduler\<close>

text \<open>
  The scheduler hook \<^verbatim>\<open>src/hooks/useScheduler.ts\<close> computes run times with the
  built-in \<^verbatim>\<open>Date\<close> object and parses the custom schedule with \<^verbatim>\<open>Number\<close>.
  This section embeds the parts of ECMA-262 those calls go through, so that the
  functions of the hook can be translated line by line.

  A Number is \<open>NaN\<close>, an infinity or a finite value. Finite values are kept exact
  (a rational); the rounding of a long decimal literal to the nearest double and the
  sign of zero are not represented. Every finite Number reaching a \<^verbatim>\<open>Date\<close> setter is
  truncated to an integer there (\<^verbatim>\<open>ToIntegerOrInfinity\<close>).
\<close>

datatype jsnum = NaN | PosInf | NegInf | Fin rat

fun js_add :: "jsnum \<Rightarrow> jsnum \<Rightarrow> jsnum" where
  "js_add NaN _ = NaN"
| "js_add _ NaN = NaN"
| "js_add PosInf NegInf = NaN"
| "js_add NegInf PosInf = NaN"
| "js_add PosInf _ = PosInf"
| "js_add _ PosInf = PosInf"
| "js_add NegInf _ = NegInf"
| "js_add _ NegInf = NegInf"
| "js_add (Fin a) (Fin b) = Fin (a + b)"

fun js_neg :: "jsnum \<Rightarrow> jsnum" where
  "js_neg NaN = NaN"
| "js_neg PosInf = NegInf"
| "js_neg NegInf = PosInf"
| "js_neg (Fin a) = Fin (- a)"

definition js_sub :: "jsnum \<Rightarrow> jsnum \<Rightarrow> jsnum" where
  "js_sub a b = js_add a (js_neg b)"

text \<open>\<^verbatim>\<open>ToBoolean\<close> on a Number: \<open>NaN\<close> and zero are falsy. \<^verbatim>\<open>a || b\<close> yields \<open>a\<close>
  when it is truthy and \<open>b\<close> otherwise.\<close>

fun js_truthy :: "jsnum \<Rightarrow> bool" where
  "js_truthy NaN = False"
| "js_truthy (Fin a) = (a \<noteq> 0)"
| "js_truthy _ = True"

definition js_or :: "jsnum \<Rightarrow> jsnum \<Rightarrow> jsnum" where
  "js_or a b = (if js_truthy a then a else b)"

definition num :: "int \<Rightarrow> jsnum" where
  "num n = Fin (of_int n)"

text \<open>\<^verbatim>\<open>ToIntegerOrInfinity\<close> of a finite Number truncates towards zero. The result is
  \<open>None\<close> for the values the abstract operations below reject as "not finite".\<close>

fun finite_integer :: "jsnum \<Rightarrow> int option" where
  "finite_integer (Fin r) = Some (if 0 \<le> r then \<lfloor>r\<rfloor> else \<lceil>r\<rceil>)"
| "finite_integer _ = None"

subsection \<open>Time values (ECMA-262, Date objects)\<close>

text \<open>A time value is a number of milliseconds since the epoch, or \<open>NaN\<close>, written
  \<open>None\<close>; a \<^verbatim>\<open>Date\<close> whose time value is \<open>NaN\<close> is an "Invalid Date".\<close>

type_synonym date = "int option"

definition msPerSecond :: int where "msPerSecond = 1000"
definition msPerMinute :: int where "msPerMinute = 60000"
definition msPerHour :: int where "msPerHour = 3600000"
definition msPerDay :: int where "msPerDay = 86400000"

definition Day :: "int \<Rightarrow> int" where
  "Day t = t div msPerDay"

definition TimeWithinDay :: "int \<Rightarrow> int" where
  "TimeWithinDay t = t mod msPerDay"

definition DaysInYear :: "int \<Rightarrow> int" where
  "DaysInYear y =
     (if y mod 4 \<noteq> 0 then 365
      else if y mod 100 \<noteq> 0 then 366
      else if y mod 400 \<noteq> 0 then 365
      else 366)"

definition DayFromYear :: "int \<Rightarrow> int" where
  "DayFromYear y =
     365 * (y - 1970) + (y - 1969) div 4 - (y - 1901) div 100 + (y - 1601) div 400"

definition TimeFromYear :: "int \<Rightarrow> int" where
  "TimeFromYear y = msPerDay * DayFromYear y"

text \<open>\<^verbatim>\<open>YearFromTime(t)\<close> is the largest \<open>y\<close> with \<open>TimeFromYear y \<le> t\<close>. It is computed
  from an estimate that is off by at most one year; lemma \<open>YearFromTime_bounds\<close> below
  shows that the result is the year the standard asks for.\<close>

definition YearFromTime :: "int \<Rightarrow> int" where
  "YearFromTime t =
     (let d = Day t; e = 1970 + (d * 400) div 146097
      in if DayFromYear (e + 1) \<le> d then e + 1
         else if DayFromYear e \<le> d then e
         else e - 1)"

definition DayWithinYear :: "int \<Rightarrow> int" where
  "DayWithinYear t = Day t - DayFromYear (YearFromTime t)"

definition InLeapYear :: "int \<Rightarrow> int" where
  "InLeapYear t = (if DaysInYear (YearFromTime t) = 366 then 1 else 0)"

definition MonthFromTime :: "int \<Rightarrow> int" where
  "MonthFromTime t =
     (let dw = DayWithinYear t; leap = InLeapYear t
      in if dw < 31 then 0
         else if dw < 59 + leap then 1
         else if dw < 90 + leap then 2
         else if dw < 120 + leap then 3
         else if dw < 151 + leap then 4
         else if dw < 181 + leap then 5
         else if dw < 212 + leap then 6
         else if dw < 243 + leap then 7
         else if dw < 273 + leap then 8
         else if dw < 304 + leap then 9
         else if dw < 334 + leap then 10
         else 11)"

text \<open>The day number within the year on which month \<open>m\<close> (0 to 11) starts.\<close>

definition MonthStart :: "int \<Rightarrow> int \<Rightarrow> int" where
  "MonthStart m leap =
     (if m = 0 then 0
      else if m = 1 then 31
      else if m = 2 then 59 + leap
      else if m = 3 then 90 + leap
      else if m = 4 then 120 + leap
      else if m = 5 then 151 + leap
      else if m = 6 then 181 + leap
      else if m = 7 then 212 + leap
      else if m = 8 then 243 + leap
      else if m = 9 then 273 + leap
      else if m = 10 then 304 + leap
      else 334 + leap)"

definition DateFromTime :: "int \<Rightarrow> int" where
  "DateFromTime t =
     (let dw = DayWithinYear t; leap = InLeapYear t; m = MonthFromTime t
      in if m = 0 then dw + 1
         else if m = 1 then dw - 30
         else if m = 2 then dw - 58 - leap
         else if m = 3 then dw - 89 - leap
         else if m = 4 then dw - 119 - leap
         else if m = 5 then dw - 150 - leap
         else if m = 6 then dw - 180 - leap
         else if m = 7 then dw - 211 - leap
         else if m = 8 then dw - 242 - leap
         else if m = 9 then dw - 272 - leap
         else if m = 10 then dw - 303 - leap
         else dw - 333 - leap)"

definition WeekDay :: "int \<Rightarrow> int" where
  "WeekDay t = (Day t + 4) mod 7"

definition HourFromTime :: "int \<Rightarrow> int" where
  "HourFromTime t = (t div msPerHour) mod 24"

definition MinFromTime :: "int \<Rightarrow> int" where
  "MinFromTime t = (t div msPerMinute) mod 60"

definition SecFromTime :: "int \<Rightarrow> int" where
  "SecFromTime t = (t div msPerSecond) mod 60"

definition msFromTime :: "int \<Rightarrow> int" where
  "msFromTime t = t mod msPerSecond"

text \<open>The local time zone is a fixed offset \<open>tza\<close> from UTC, in milliseconds; a zone
  whose offset changes over the year (daylight saving) is outside the model.\<close>

definition LocalTime :: "int \<Rightarrow> int \<Rightarrow> int" where
  "LocalTime tza t = t + tza"

definition UTC :: "int \<Rightarrow> int option \<Rightarrow> int option" where
  "UTC tza t = map_option (\<lambda>v. v - tza) t"

definition MakeTime :: "jsnum \<Rightarrow> jsnum \<Rightarrow> jsnum \<Rightarrow> jsnum \<Rightarrow> int option" where
  "MakeTime hour minute sec ms =
     (case (finite_integer hour, finite_integer minute, finite_integer sec, finite_integer ms) of
        (Some h, Some m, Some s, Some milli) \<Rightarrow>
          Some (h * msPerHour + m * msPerMinute + s * msPerSecond + milli)
      | _ \<Rightarrow> None)"

definition maxTimeValue :: int where
  "maxTimeValue = 8640000000000000"

definition MakeDay :: "jsnum \<Rightarrow> jsnum \<Rightarrow> jsnum \<Rightarrow> int option" where
  "MakeDay year month dt =
     (case (finite_integer year, finite_integer month, finite_integer dt) of
        (Some y, Some m, Some d) \<Rightarrow>
          (let ym = y + m div 12;
               mn = m mod 12;
               first = DayFromYear ym + MonthStart mn (if DaysInYear ym = 366 then 1 else 0)
           in if \<bar>first * msPerDay\<bar> \<le> maxTimeValue then Some (first + d - 1) else None)
      | _ \<Rightarrow> None)"

definition MakeDate :: "int option \<Rightarrow> int option \<Rightarrow> int option" where
  "MakeDate day time =
     (case (day, time) of
        (Some d, Some t) \<Rightarrow> Some (d * msPerDay + t)
      | _ \<Rightarrow> None)"

definition TimeClip :: "int option \<Rightarrow> date" where
  "TimeClip time =
     (case time of
        None \<Rightarrow> None
      | Some t \<Rightarrow> if \<bar>t\<bar> > maxTimeValue then None else Some t)"

subsection \<open>The Date methods the scheduler calls\<close>

definition getHours :: "int \<Rightarrow> date \<Rightarrow> jsnum" where
  "getHours tza d = (case d of None \<Rightarrow> NaN | Some t \<Rightarrow> num (HourFromTime (LocalTime tza t)))"

definition getDate :: "int \<Rightarrow> date \<Rightarrow> jsnum" where
  "getDate tza d = (case d of None \<Rightarrow> NaN | Some t \<Rightarrow> num (DateFromTime (LocalTime tza t)))"

definition getDay :: "int \<Rightarrow> date \<Rightarrow> jsnum" where
  "getDay tza d = (case d of None \<Rightarrow> NaN | Some t \<Rightarrow> num (WeekDay (LocalTime tza t)))"

definition getMonth :: "int \<Rightarrow> date \<Rightarrow> jsnum" where
  "getMonth tza d = (case d of None \<Rightarrow> NaN | Some t \<Rightarrow> num (MonthFromTime (LocalTime tza t)))"

definition setMilliseconds :: "int \<Rightarrow> jsnum \<Rightarrow> date \<Rightarrow> date" where
  "setMilliseconds tza ms d =
     (case d of
        None \<Rightarrow> None
      | Some u \<Rightarrow>
          (let t = LocalTime tza u;
               time = MakeTime (num (HourFromTime t)) (num (MinFromTime t)) (num (SecFromTime t)) ms
           in TimeClip (UTC tza (MakeDate (Some (Day t)) time))))"

definition setSeconds :: "int \<Rightarrow> jsnum \<Rightarrow> date \<Rightarrow> date" where
  "setSeconds tza sec d =
     (case d of
        None \<Rightarrow> None
      | Some u \<Rightarrow>
          (let t = LocalTime tza u;
               time = MakeTime (num (HourFromTime t)) (num (MinFromTime t)) sec (num (msFromTime t))
           in TimeClip (UTC tza (MakeDate (Some (Day t)) time))))"

definition setMinutes :: "int \<Rightarrow> jsnum \<Rightarrow> date \<Rightarrow> date" where
  "setMinutes tza minute d =
     (case d of
        None \<Rightarrow> None
      | Some u \<Rightarrow>
          (let t = LocalTime tza u;
               time = MakeTime (num (HourFromTime t)) minute (num (SecFromTime t)) (num (msFromTime t))
           in TimeClip (UTC tza (MakeDate (Some (Day t)) time))))"

definition setHours :: "int \<Rightarrow> jsnum \<Rightarrow> date \<Rightarrow> date" where
  "setHours tza hour d =
     (case d of
        None \<Rightarrow> None
      | Some u \<Rightarrow>
          (let t = LocalTime tza u;
               time = MakeTime hour (num (MinFromTime t)) (num (SecFromTime t)) (num (msFromTime t))
           in TimeClip (UTC tza (MakeDate (Some (Day t)) time))))"

definition setDate :: "int \<Rightarrow> jsnum \<Rightarrow> date \<Rightarrow> date" where
  "setDate tza dt d =
     (case d of
        None \<Rightarrow> None
      | Some u \<Rightarrow>
          (let t = LocalTime tza u;
               day = MakeDay (num (YearFromTime t)) (num (MonthFromTime t)) dt
           in TimeClip (UTC tza (MakeDate day (Some (TimeWithinDay t))))))"

definition setMonth :: "int \<Rightarrow> jsnum \<Rightarrow> date \<Rightarrow> date" where
  "setMonth tza month d =
     (case d of
        None \<Rightarrow> None
      | Some u \<Rightarrow>
          (let t = LocalTime tza u;
               day = MakeDay (num (YearFromTime t)) month (num (DateFromTime t))
           in TimeClip (UTC tza (MakeDate day (Some (TimeWithinDay t))))))"

text \<open>\<^verbatim>\<open>a <= b\<close> on two dates compares their time values as Numbers; a comparison with
  \<open>NaN\<close> is false.\<close>

definition date_le :: "date \<Rightarrow> date \<Rightarrow> bool" where
  "date_le a b = (case (a, b) of (Some x, Some y) \<Rightarrow> x \<le> y | _ \<Rightarrow> False)"

subsection \<open>Number applied to a string, and split\<close>

text \<open>\<^verbatim>\<open>Number(s)\<close> follows the \<^verbatim>\<open>StringNumericLiteral\<close> grammar: surrounding white
  space is dropped, the empty string is \<open>0\<close>, then comes either a radix-prefixed
  integer or a signed decimal literal (or \<^verbatim>\<open>Infinity\<close>); anything else is \<open>NaN\<close>.
  Strings are byte strings here, so only the ASCII white-space characters are
  recognised.\<close>

definition is_ws :: "char \<Rightarrow> bool" where
  "is_ws c = (of_char c \<in> {9, 10, 11, 12, 13, 32 :: nat})"

definition trim :: "string \<Rightarrow> string" where
  "trim s = rev (dropWhile is_ws (rev (dropWhile is_ws s)))"

definition digit_of :: "char \<Rightarrow> nat option" where
  "digit_of c =
     (let n = (of_char c :: nat)
      in if 48 \<le> n \<and> n \<le> 57 then Some (n - 48)
         else if 97 \<le> n \<and> n \<le> 102 then Some (n - 87)
         else if 65 \<le> n \<and> n \<le> 70 then Some (n - 55)
         else None)"

definition is_digit :: "char \<Rightarrow> bool" where
  "is_digit c = (case digit_of c of Some v \<Rightarrow> v < 10 | None \<Rightarrow> False)"

fun radix_value :: "nat \<Rightarrow> nat \<Rightarrow> string \<Rightarrow> nat option" where
  "radix_value b acc [] = Some acc"
| "radix_value b acc (c # cs) =
     (case digit_of c of
        Some v \<Rightarrow> if v < b then radix_value b (acc * b + v) cs else None
      | None \<Rightarrow> None)"

definition digits_value :: "nat \<Rightarrow> string \<Rightarrow> nat option" where
  "digits_value b s = (if s = [] then None else radix_value b 0 s)"

definition exponent_part :: "string \<Rightarrow> int option" where
  "exponent_part s =
     (case s of
        [] \<Rightarrow> Some 0
      | c # r \<Rightarrow>
          if c = CHR ''e'' \<or> c = CHR ''E'' then
            (case r of
               CHR ''+'' # ds \<Rightarrow> map_option int (digits_value 10 ds)
             | CHR ''-'' # ds \<Rightarrow> map_option (\<lambda>n. - int n) (digits_value 10 ds)
             | _ \<Rightarrow> map_option int (digits_value 10 r))
          else None)"

definition scale10 :: "nat \<Rightarrow> int \<Rightarrow> rat" where
  "scale10 m k = (if 0 \<le> k then of_nat (m * 10 ^ nat k) else of_nat m / of_nat (10 ^ nat (- k)))"

definition unsigned_decimal :: "string \<Rightarrow> jsnum" where
  "unsigned_decimal s =
     (if s = ''Infinity'' then PosInf
      else
        let ip = takeWhile is_digit s;
            r1 = dropWhile is_digit s;
            fp = (case r1 of CHR ''.'' # r \<Rightarrow> takeWhile is_digit r | _ \<Rightarrow> []);
            r2 = (case r1 of CHR ''.'' # r \<Rightarrow> dropWhile is_digit r | _ \<Rightarrow> r1)
        in if ip = [] \<and> fp = [] then NaN
           else
             (case (radix_value 10 0 (ip @ fp), exponent_part r2) of
                (Some m, Some ex) \<Rightarrow> Fin (scale10 m (ex - int (length fp)))
              | _ \<Rightarrow> NaN))"

definition radix_literal :: "nat \<Rightarrow> string \<Rightarrow> jsnum" where
  "radix_literal b ds = (case digits_value b ds of Some n \<Rightarrow> Fin (of_nat n) | None \<Rightarrow> NaN)"

definition js_Number :: "string \<Rightarrow> jsnum" where
  "js_Number str =
     (case trim str of
        [] \<Rightarrow> Fin 0
      | CHR ''0'' # CHR ''x'' # ds \<Rightarrow> radix_literal 16 ds
      | CHR ''0'' # CHR ''X'' # ds \<Rightarrow> radix_literal 16 ds
      | CHR ''0'' # CHR ''o'' # ds \<Rightarrow> radix_literal 8 ds
      | CHR ''0'' # CHR ''O'' # ds \<Rightarrow> radix_literal 8 ds
      | CHR ''0'' # CHR ''b'' # ds \<Rightarrow> radix_literal 2 ds
      | CHR ''0'' # CHR ''B'' # ds \<Rightarrow> radix_literal 2 ds
      | CHR ''+'' # r \<Rightarrow> unsigned_decimal r
      | CHR ''-'' # r \<Rightarrow> js_neg (unsigned_decimal r)
      | s \<Rightarrow> unsigned_decimal s)"

text \<open>\<^verbatim>\<open>s.split(c)\<close> for a one-character separator: the pieces between the separators,
  at least one piece.\<close>

fun split :: "char \<Rightarrow> string \<Rightarrow> string list" where
  "split c [] = [[]]"
| "split c (x # xs) =
     (if x = c then [] # split c xs
      else (case split c xs of
              w # ws \<Rightarrow> (x # w) # ws
            | [] \<Rightarrow> [[x]]))"

text \<open>Reading element \<open>i\<close> of an array by destructuring gives \<^verbatim>\<open>undefined\<close> when the
  array is shorter; a Date setter turns \<^verbatim>\<open>undefined\<close> into \<open>NaN\<close>.\<close>

definition element :: "jsnum list \<Rightarrow> nat \<Rightarrow> jsnum" where
  "element xs i = (if i < length xs then xs ! i else NaN)"

text \<open>A template literal renders an integer in decimal; \<open>digit_char n\<close> is the character
  of the digit \<open>n < 10\<close>.\<close>

definition digit_char :: "nat \<Rightarrow> char" where
  "digit_char n = ''0123456789'' ! n"

fun nat_digits :: "nat \<Rightarrow> string" where
  "nat_digits n =
     (if n < 10 then [digit_char n]
      else nat_digits (n div 10) @ [digit_char (n mod 10)])"

definition int_to_string :: "int \<Rightarrow> string" where
  "int_to_string i = (if i < 0 then CHR ''-'' # nat_digits (nat (- i)) else nat_digits (nat i))"

section \<open>Data model of the scheduler\<close>

text \<open>\<^verbatim>\<open>interface SchedulerTask\<close> (useScheduler.ts, lines 4 to 17). The field \<^verbatim>\<open>id\<close> is
  \<open>task_id\<close> and \<^verbatim>\<open>type\<close> is \<open>task_type\<close> here. An optional field is an \<open>option\<close>.
  \<^verbatim>\<open>frequency\<close> stays a string: the \<^verbatim>\<open>switch\<close> of \<^verbatim>\<open>calculateNextRunTime\<close> has a
  \<^verbatim>\<open>default\<close> branch for the values outside the declared union. The values of the
  \<^verbatim>\<open>options\<close> bag are opaque and kept in serialised form.\<close>

datatype task_type = Summary | Poster

datatype run_status = Success | Failure

record SchedulerTask =
  task_id :: string
  task_type :: task_type
  groupId :: string
  frequency :: string
  customCron :: "string option"
  nextRunTime :: date
  lastRunTime :: "date option"
  lastRunStatus :: "run_status option"
  isActive :: bool
  createdAt :: date
  updatedAt :: date
  options :: "(string \<times> string) list option"

text \<open>\<^verbatim>\<open>Partial<SchedulerTask>\<close>: every key may be absent (\<open>None\<close>). A key that is present
  replaces the field when the object is spread over a task. For the optional fields of
  the task a present key may hold \<^verbatim>\<open>undefined\<close> (\<open>Some None\<close>).\<close>

record TaskUpdates =
  u_id :: "string option"
  u_type :: "task_type option"
  u_groupId :: "string option"
  u_frequency :: "string option"
  u_customCron :: "string option option"
  u_nextRunTime :: "date option"
  u_lastRunTime :: "date option option"
  u_lastRunStatus :: "run_status option option"
  u_isActive :: "bool option"
  u_createdAt :: "date option"
  u_updatedAt :: "date option"
  u_options :: "(string \<times> string) list option option"

definition no_updates :: TaskUpdates where
  "no_updates =
     \<lparr>u_id = None, u_type = None, u_groupId = None, u_frequency = None, u_customCron = None,
      u_nextRunTime = None, u_lastRunTime = None, u_lastRunStatus = None, u_isActive = None,
      u_createdAt = None, u_updatedAt = None, u_options = None\<rparr>"

definition override :: "'a \<Rightarrow> 'a option \<Rightarrow> 'a" where
  "override old new = (case new of None \<Rightarrow> old | Some v \<Rightarrow> v)"

text \<open>The object spread \<^verbatim>\<open>{...task, ...updates}\<close>.\<close>

definition spread :: "SchedulerTask \<Rightarrow> TaskUpdates \<Rightarrow> SchedulerTask" where
  "spread t u =
     \<lparr>task_id = override (task_id t) (u_id u),
      task_type = override (task_type t) (u_type u),
      groupId = override (groupId t) (u_groupId u),
      frequency = override (frequency t) (u_frequency u),
      customCron = override (customCron t) (u_customCron u),
      nextRunTime = override (nextRunTime t) (u_nextRunTime u),
      lastRunTime = override (lastRunTime t) (u_lastRunTime u),
      lastRunStatus = override (lastRunStatus t) (u_lastRunStatus u),
      isActive = override (isActive t) (u_isActive u),
      createdAt = override (createdAt t) (u_createdAt u),
      updatedAt = override (updatedAt t) (u_updatedAt u),
      options = override (options t) (u_options u)\<rparr>"

text \<open>Values that are thrown, and the outcome of the caller's execution callback
  (\<^verbatim>\<open>onTaskRun\<close>, a promise that resolves or rejects). A rejection carries an
  \<^verbatim>\<open>Error\<close> with a message, or a value that is not an \<^verbatim>\<open>Error\<close> (\<open>None\<close>).
  \<open>StackExhausted\<close> is the \<^verbatim>\<open>RangeError\<close> an engine throws when calls nest deeper
  than its stack allows.\<close>

datatype js_error =
    TaskNotFound
  | StackExhausted
  | Thrown string
  | TaskExecutionFailed
  | SaveTasksFailed

datatype outcome = Resolved | Rejected "js_error option"

text \<open>The notifications of the hook, by severity and text. The texts of the source are
  not ASCII; each constructor stands for the text of one \<^verbatim>\<open>addNotification\<close> call:
  \<open>SaveFailed\<close> line 67, \<open>TaskAdded\<close> line 86, \<open>UpdateTaskNotFound\<close> line 95,
  \<open>TaskDeleted\<close> line 120, \<open>TaskEnabled\<close> and \<open>TaskDisabled\<close> line 141,
  \<open>TaskRunSucceeded\<close> line 234 (the text depends on the task type),
  \<open>TaskRunFailed\<close> line 245 (with the message of the error, if it has one).\<close>

datatype severity = Info | Succeeded | Warning | Error

datatype message =
    SaveFailed
  | TaskAdded
  | UpdateTaskNotFound
  | TaskDeleted
  | TaskEnabled
  | TaskDisabled
  | TaskRunSucceeded task_type
  | TaskRunFailed "js_error option"

text \<open>The state of the hook: the React state cells \<^verbatim>\<open>tasks\<close>, \<^verbatim>\<open>currentTask\<close> and
  \<^verbatim>\<open>error\<close>, the notifications emitted so far, the entry \<^verbatim>\<open>scheduler_tasks\<close> of
  \<^verbatim>\<open>localStorage\<close>, and the number of times the system clock has been read. Two
  logs record what the hook did to its collaborators: the ids \<^verbatim>\<open>runTask\<close> was
  invoked with, and the tasks handed to the execution callback.\<close>

record scheduler =
  tasks :: "SchedulerTask list"
  currentTask :: "SchedulerTask option"
  error :: "js_error option"
  notifications :: "(severity \<times> message) list"
  storage :: "SchedulerTask list option"
  ticks :: nat
  invoked :: "string list"
  calls :: "SchedulerTask list"

text \<open>What the hook gets from outside: the system clock (\<open>clock e n\<close> is the reading
  of the \<open>n\<close>-th \<^verbatim>\<open>new Date()\<close> or \<^verbatim>\<open>Date.now()\<close>), the offset of the local time zone,
  how many nested activations of \<^verbatim>\<open>calculateNextRunTime\<close> the engine's stack has room
  for, whether \<^verbatim>\<open>localStorage.setItem\<close> accepts a collection, and the optional
  execution callback of \<^verbatim>\<open>SchedulerOptions\<close>.\<close>

record env =
  clock :: "nat \<Rightarrow> int"
  localTZA :: int
  stackLimit :: nat
  setItem :: "SchedulerTask list \<Rightarrow> bool"
  onTaskRun :: "(SchedulerTask \<Rightarrow> outcome) option"

definition new_Date :: "env \<Rightarrow> scheduler \<Rightarrow> date \<times> scheduler" where
  "new_Date e s = (Some (clock e (ticks s)), s\<lparr>ticks := Suc (ticks s)\<rparr>)"

definition addNotification :: "severity \<Rightarrow> message \<Rightarrow> scheduler \<Rightarrow> scheduler" where
  "addNotification sev msg s = s\<lparr>notifications := notifications s @ [(sev, msg)]\<rparr>"

section \<open>Task lifecycle operations\<close>

text \<open>\<^verbatim>\<open>saveTasks\<close> (lines 62 to 69): a failing write is caught, recorded in \<^verbatim>\<open>error\<close>
  and notified.\<close>

definition saveTasks :: "env \<Rightarrow> SchedulerTask list \<Rightarrow> scheduler \<Rightarrow> scheduler" where
  "saveTasks e updatedTasks s =
     (if setItem e updatedTasks then s\<lparr>storage := Some updatedTasks\<rparr>
      else addNotification Error SaveFailed (s\<lparr>error := Some SaveTasksFailed\<rparr>))"

text \<open>\<^verbatim>\<open>addTask\<close> (lines 72 to 88). The id is built from \<^verbatim>\<open>Date.now()\<close> and up to
  seven characters drawn from \<^verbatim>\<open>Math.random()\<close>; the random part \<open>rnd\<close> is an input.
  The fields \<^verbatim>\<open>id\<close>, \<^verbatim>\<open>createdAt\<close> and \<^verbatim>\<open>updatedAt\<close> of the argument are replaced.\<close>

definition addTask :: "env \<Rightarrow> SchedulerTask \<Rightarrow> string \<Rightarrow> scheduler \<Rightarrow> SchedulerTask \<times> scheduler" where
  "addTask e task rnd s =
     (let k = ticks s;
          newTask = task\<lparr>task_id := ''task_'' @ int_to_string (clock e k) @ ''_'' @ rnd,
                         createdAt := Some (clock e (k + 1)),
                         updatedAt := Some (clock e (k + 2))\<rparr>;
          s1 = s\<lparr>ticks := k + 3\<rparr>;
          updatedTasks = tasks s1 @ [newTask];
          s2 = (saveTasks e updatedTasks s1)\<lparr>tasks := updatedTasks\<rparr>
      in (newTask, addNotification Succeeded TaskAdded s2))"

text \<open>\<^verbatim>\<open>Array.prototype.findIndex\<close>: the first index whose element satisfies the
  predicate; \<open>None\<close> stands for \<open>-1\<close>.\<close>

fun findIndex :: "('a \<Rightarrow> bool) \<Rightarrow> 'a list \<Rightarrow> nat option" where
  "findIndex P [] = None"
| "findIndex P (x # xs) = (if P x then Some 0 else map_option Suc (findIndex P xs))"

text \<open>\<^verbatim>\<open>updateTask\<close> (lines 91 to 111).\<close>

definition updateTask :: "env \<Rightarrow> string \<Rightarrow> TaskUpdates \<Rightarrow> scheduler \<Rightarrow> scheduler" where
  "updateTask e taskId updates s =
     (let prevTasks = tasks s
      in case findIndex (\<lambda>t. task_id t = taskId) prevTasks of
           None \<Rightarrow> addNotification Error UpdateTaskNotFound s
         | Some taskIndex \<Rightarrow>
             (let (now, s1) = new_Date e s;
                  updatedTask = (spread (prevTasks ! taskIndex) updates)\<lparr>updatedAt := now\<rparr>;
                  updatedTasks = prevTasks[taskIndex := updatedTask]
              in (saveTasks e updatedTasks s1)\<lparr>tasks := updatedTasks\<rparr>))"

text \<open>\<^verbatim>\<open>deleteTask\<close> (lines 114 to 121).\<close>

definition deleteTask :: "env \<Rightarrow> string \<Rightarrow> scheduler \<Rightarrow> scheduler" where
  "deleteTask e taskId s =
     (let updatedTasks = filter (\<lambda>t. task_id t \<noteq> taskId) (tasks s);
          s1 = (saveTasks e updatedTasks s)\<lparr>tasks := updatedTasks\<rparr>
      in addNotification Succeeded TaskDeleted s1)"

text \<open>\<^verbatim>\<open>toggleTaskActive\<close> (lines 124 to 146).\<close>

definition toggleTaskActive :: "env \<Rightarrow> string \<Rightarrow> scheduler \<Rightarrow> scheduler" where
  "toggleTaskActive e taskId s =
     (let prevTasks = tasks s
      in case findIndex (\<lambda>t. task_id t = taskId) prevTasks of
           None \<Rightarrow> s
         | Some taskIndex \<Rightarrow>
             (let (now, s1) = new_Date e s;
                  updatedTask = (prevTasks ! taskIndex)
                                  \<lparr>isActive := \<not> isActive (prevTasks ! taskIndex), updatedAt := now\<rparr>;
                  updatedTasks = prevTasks[taskIndex := updatedTask];
                  s2 = saveTasks e updatedTasks s1;
                  s3 = addNotification Info (if isActive updatedTask then TaskEnabled else TaskDisabled) s2
              in s3\<lparr>tasks := updatedTasks\<rparr>))"

section \<open>Computing the next run time\<close>

text \<open>The branches of the \<^verbatim>\<open>switch\<close> in \<^verbatim>\<open>calculateNextRunTime\<close> (lines 153 to 202),
  each a sequence of setter calls on \<^verbatim>\<open>nextRun\<close>. \<open>z\<close> is the offset of the local time
  zone.\<close>

definition hourly_rule :: "int \<Rightarrow> date \<Rightarrow> date" where
  "hourly_rule z nextRun =
     (let d1 = setHours z (js_add (getHours z nextRun) (num 1)) nextRun;
          d2 = setMinutes z (num 0) d1;
          d3 = setSeconds z (num 0) d2
      in setMilliseconds z (num 0) d3)"

definition daily_rule :: "int \<Rightarrow> date \<Rightarrow> date" where
  "daily_rule z nextRun =
     (let d0 = setDate z (js_add (getDate z nextRun) (num 1)) nextRun;
          d1 = setHours z (num 9) d0;
          d2 = setMinutes z (num 0) d1;
          d3 = setSeconds z (num 0) d2
      in setMilliseconds z (num 0) d3)"

text \<open>Line 168: \<^verbatim>\<open>7 - nextRun.getDay() || 7\<close> is \<^verbatim>\<open>(7 - nextRun.getDay()) || 7\<close>, since
  \<^verbatim>\<open>-\<close> binds tighter than \<^verbatim>\<open>||\<close>.\<close>

definition weekly_rule :: "int \<Rightarrow> date \<Rightarrow> date" where
  "weekly_rule z nextRun =
     (let d0 = setDate z (js_add (getDate z nextRun)
                                 (js_or (js_sub (num 7) (getDay z nextRun)) (num 7))) nextRun;
          d1 = setHours z (num 9) d0;
          d2 = setMinutes z (num 0) d1;
          d3 = setSeconds z (num 0) d2
      in setMilliseconds z (num 0) d3)"

definition monthly_rule :: "int \<Rightarrow> date \<Rightarrow> date" where
  "monthly_rule z nextRun =
     (let d0 = setMonth z (js_add (getMonth z nextRun) (num 1)) nextRun;
          d1 = setDate z (num 1) d0;
          d2 = setHours z (num 9) d1;
          d3 = setMinutes z (num 0) d2;
          d4 = setSeconds z (num 0) d3
      in setMilliseconds z (num 0) d4)"

text \<open>Lines 184 to 197. A string is truthy when it is not empty. Nothing inside the
  \<^verbatim>\<open>try\<close> block throws (\<^verbatim>\<open>split\<close>, \<^verbatim>\<open>map(Number)\<close> and the setters return for every
  argument), so the \<^verbatim>\<open>catch\<close> block has no branch here.\<close>

definition custom_rule :: "int \<Rightarrow> string option \<Rightarrow> date \<Rightarrow> date" where
  "custom_rule z cron nextRun =
     (case cron of
        None \<Rightarrow> nextRun
      | Some c \<Rightarrow>
          if c = [] then nextRun
          else
            (let parts = map js_Number (split CHR '':'' c);
                 hour = element parts 0;
                 minute = element parts 1;
                 d0 = setDate z (js_add (getDate z nextRun) (num 1)) nextRun;
                 d1 = setHours z hour d0;
                 d2 = setMinutes z minute d1;
                 d3 = setSeconds z (num 0) d2
             in setMilliseconds z (num 0) d3))"

definition default_rule :: "int \<Rightarrow> date \<Rightarrow> date" where
  "default_rule z nextRun = setDate z (js_add (getDate z nextRun) (num 1)) nextRun"

definition candidate :: "int \<Rightarrow> SchedulerTask \<Rightarrow> date \<Rightarrow> date" where
  "candidate z task nextRun =
     (if frequency task = ''hourly'' then hourly_rule z nextRun
      else if frequency task = ''daily'' then daily_rule z nextRun
      else if frequency task = ''weekly'' then weekly_rule z nextRun
      else if frequency task = ''monthly'' then monthly_rule z nextRun
      else if frequency task = ''custom'' then custom_rule z (customCron task) nextRun
      else default_rule z nextRun)"

text \<open>\<^verbatim>\<open>calculateNextRunTime\<close> (lines 149 to 210). The function reads the clock twice,
  for \<^verbatim>\<open>now\<close> and for \<^verbatim>\<open>nextRun\<close>, and calls itself when the candidate is not after
  \<^verbatim>\<open>now\<close>; the task it passes on differs in \<^verbatim>\<open>lastRunTime\<close> only. The first argument
  after the environment is the number of activations the stack still has room for:
  when it is used up, the call throws (\<open>Inl StackExhausted\<close>). \<open>k\<close> is the number of
  clock readings made before the call, and the second component of the result the
  number after it.\<close>

fun calculateNextRunTime :: "env \<Rightarrow> nat \<Rightarrow> SchedulerTask \<Rightarrow> nat \<Rightarrow> (js_error + date) \<times> nat" where
  "calculateNextRunTime e 0 task k = (Inl StackExhausted, k)"
| "calculateNextRunTime e (Suc room) task k =
     (let now = Some (clock e k);
          nextRun = candidate (localTZA e) task (Some (clock e (Suc k)))
      in if date_le nextRun now
         then calculateNextRunTime e room (task\<lparr>lastRunTime := Some now\<rparr>) (k + 2)
         else (Inr nextRun, k + 2))"

section \<open>Running tasks\<close>

text \<open>The \<^verbatim>\<open>catch\<close> and \<^verbatim>\<open>finally\<close> blocks of \<^verbatim>\<open>runTask\<close> (lines 235 to 248).
  \<open>closure\<close> is the value of \<^verbatim>\<open>tasks\<close> that the callback closed over.\<close>

definition runTask_catch :: "env \<Rightarrow> SchedulerTask list \<Rightarrow> string \<Rightarrow> js_error option \<Rightarrow> scheduler \<Rightarrow> scheduler" where
  "runTask_catch e closure taskId err s =
     (let s1 = (case find (\<lambda>t. task_id t = taskId) closure of
                  None \<Rightarrow> s
                | Some task \<Rightarrow>
                    (let (now, s') = new_Date e s
                     in updateTask e taskId
                          (no_updates\<lparr>u_lastRunTime := Some (Some now),
                                      u_lastRunStatus := Some (Some Failure)\<rparr>) s'));
          s2 = s1\<lparr>error := Some (case err of Some x \<Rightarrow> x | None \<Rightarrow> TaskExecutionFailed)\<rparr>;
          s3 = addNotification Error (TaskRunFailed err) s2
      in s3\<lparr>currentTask := None\<rparr>)"

text \<open>\<^verbatim>\<open>runTask\<close> (lines 213 to 249). The awaited callback is run to its outcome before
  the function goes on; what other code could do to the state while the promise is
  pending is not part of the model.\<close>

definition runTask :: "env \<Rightarrow> SchedulerTask list \<Rightarrow> string \<Rightarrow> scheduler \<Rightarrow> scheduler" where
  "runTask e closure taskId s0 =
     (let s = s0\<lparr>invoked := invoked s0 @ [taskId]\<rparr>
      in case find (\<lambda>t. task_id t = taskId) closure of
           None \<Rightarrow> runTask_catch e closure taskId (Some TaskNotFound) s
         | Some task \<Rightarrow>
             (let s1 = s\<lparr>currentTask := Some task\<rparr>;
                  result = (case onTaskRun e of None \<Rightarrow> Resolved | Some cb \<Rightarrow> cb task);
                  s2 = (case onTaskRun e of None \<Rightarrow> s1 | Some cb \<Rightarrow> s1\<lparr>calls := calls s1 @ [task]\<rparr>)
              in case result of
                   Rejected err \<Rightarrow> runTask_catch e closure taskId err s2
                 | Resolved \<Rightarrow>
                     (let (lastRun, s3) = new_Date e s2
                      in case calculateNextRunTime e (stackLimit e) task (ticks s3) of
                           (Inl err, k) \<Rightarrow> runTask_catch e closure taskId (Some err) (s3\<lparr>ticks := k\<rparr>)
                         | (Inr next, k) \<Rightarrow>
                             (let s4 = updateTask e taskId
                                         (no_updates\<lparr>u_lastRunTime := Some (Some lastRun),
                                                     u_lastRunStatus := Some (Some Success),
                                                     u_nextRunTime := Some next\<rparr>)
                                         (s3\<lparr>ticks := k\<rparr>);
                                  s5 = addNotification Succeeded (TaskRunSucceeded (task_type task)) s4
                              in s5\<lparr>currentTask := None\<rparr>))))"

text \<open>\<^verbatim>\<open>checkTasks\<close> (lines 252 to 260): one scan; \<open>eligible\<close> is the condition of
  line 256. Every \<^verbatim>\<open>runTask\<close> started by the scan
  closes over the same \<^verbatim>\<open>tasks\<close> as the scan itself. The runs are taken one after the
  other, in the order of the collection.\<close>

definition eligible :: "date \<Rightarrow> SchedulerTask \<Rightarrow> bool" where
  "eligible now task \<longleftrightarrow> isActive task \<and> date_le (nextRunTime task) now"

definition checkTasks :: "env \<Rightarrow> scheduler \<Rightarrow> scheduler" where
  "checkTasks e s =
     (let closure = tasks s;
          (now, s1) = new_Date e s
      in foldl (\<lambda>st task. if eligible now task then runTask e closure (task_id task) st else st)
               s1 closure)"

text \<open>A lifecycle operation, and the effect of a sequence of them. \<open>AddTask\<close> carries
  the specification and the random part of the id.\<close>

datatype operation =
    AddTask SchedulerTask string
  | UpdateTask string TaskUpdates
  | ToggleTaskActive string
  | DeleteTask string
  | RunTask string

fun apply_operation :: "env \<Rightarrow> scheduler \<Rightarrow> operation \<Rightarrow> scheduler" where
  "apply_operation e s (AddTask task rnd) = snd (addTask e task rnd s)"
| "apply_operation e s (UpdateTask taskId updates) = updateTask e taskId updates s"
| "apply_operation e s (ToggleTaskActive taskId) = toggleTaskActive e taskId s"
| "apply_operation e s (DeleteTask taskId) = deleteTask e taskId s"
| "apply_operation e s (RunTask taskId) = runTask e (tasks s) taskId s"

definition apply_operations :: "env \<Rightarrow> operation list \<Rightarrow> scheduler \<Rightarrow> scheduler" where
  "apply_operations e ops s = foldl (apply_operation e) s ops"

text \<open>Operations that leave the ids of the collection alone: an \<^verbatim>\<open>addTask\<close> whose
  generated id is not in the collection yet, an \<^verbatim>\<open>updateTask\<close> whose partial fields have
  no \<^verbatim>\<open>id\<close> key, and every other operation. \<open>added_ids\<close> lists the ids generated by the
  \<^verbatim>\<open>addTask\<close> operations of a sequence.\<close>

fun keeps_ids :: "env \<Rightarrow> scheduler \<Rightarrow> operation \<Rightarrow> bool" where
  "keeps_ids e s (AddTask task rnd) =
     (task_id (fst (addTask e task rnd s)) \<notin> task_id ` set (tasks s))"
| "keeps_ids e s (UpdateTask taskId updates) = (u_id updates = None)"
| "keeps_ids e s (ToggleTaskActive taskId) = True"
| "keeps_ids e s (DeleteTask taskId) = True"
| "keeps_ids e s (RunTask taskId) = True"

fun all_keep_ids :: "env \<Rightarrow> scheduler \<Rightarrow> operation list \<Rightarrow> bool" where
  "all_keep_ids e s [] = True"
| "all_keep_ids e s (x # xs) = (keeps_ids e s x \<and> all_keep_ids e (apply_operation e s x) xs)"

fun added_id :: "env \<Rightarrow> scheduler \<Rightarrow> operation \<Rightarrow> string list" where
  "added_id e s (AddTask task rnd) = [task_id (fst (addTask e task rnd s))]"
| "added_id e s (UpdateTask taskId updates) = []"
| "added_id e s (ToggleTaskActive taskId) = []"
| "added_id e s (DeleteTask taskId) = []"
| "added_id e s (RunTask taskId) = []"

fun added_ids :: "env \<Rightarrow> scheduler \<Rightarrow> operation list \<Rightarrow> string list" where
  "added_ids e s [] = []"
| "added_ids e s (x # xs) = added_id e s x @ added_ids e (apply_operation e s x) xs"

section \<open>Assumptions on the clock\<close>

text \<open>\<open>steady e k n\<close>: the offset of the time zone is at most a day, and each of the
  \<open>n\<close> clock readings that follow the first \<open>k\<close> is a time value well inside the range
  of \<^verbatim>\<open>Date\<close> and is followed by a reading that is at most a day later. The clock may
  stand still between two readings, as it does when they fall into the same
  millisecond.\<close>

definition steady :: "env \<Rightarrow> nat \<Rightarrow> nat \<Rightarrow> bool" where
  "steady e k n \<longleftrightarrow>
     \<bar>localTZA e\<bar> \<le> msPerDay \<and>
     (\<forall>i<n. \<bar>clock e (k + i)\<bar> \<le> 8000000000000000 \<and>
            clock e (k + i + 1) \<le> clock e (k + i) + msPerDay)"

section \<open>Example inputs\<close>

text \<open>A clock that starts on Wednesday 2024-01-31 at 10:00:00.000 UTC and advances by one
  millisecond with every reading, in a UTC time zone; a stack with room for three
  activations of \<^verbatim>\<open>calculateNextRunTime\<close>; a store that accepts every write; no execution
  callback. A weekly task that is overdue, a state that holds it, a callback that always
  rejects, a state with two tasks, and a sequence of operations.\<close>

definition example_clock :: "nat \<Rightarrow> int" where
  "example_clock n = 1706695200000 + int n"

definition accept :: "SchedulerTask list \<Rightarrow> bool" where
  "accept ts = True"

definition example_env :: env where
  "example_env =
     \<lparr>clock = example_clock, localTZA = 0, stackLimit = 3, setItem = accept, onTaskRun = None\<rparr>"

definition example_task :: SchedulerTask where
  "example_task =
     \<lparr>task_id = ''t1'', task_type = Summary, groupId = ''g1'', frequency = ''weekly'',
      customCron = None, nextRunTime = Some 1706000000000, lastRunTime = None,
      lastRunStatus = None, isActive = True, createdAt = Some 1705000000000,
      updatedAt = Some 1705000000000, options = None\<rparr>"

definition example_state :: scheduler where
  "example_state =
     \<lparr>tasks = [example_task], currentTask = None, error = None, notifications = [],
      storage = None, ticks = 0, invoked = [], calls = []\<rparr>"

definition failing_callback :: "SchedulerTask \<Rightarrow> outcome" where
  "failing_callback task = Rejected (Some (Thrown ''request failed''))"

definition two_tasks_state :: scheduler where
  "two_tasks_state = example_state\<lparr>tasks := [example_task, example_task\<lparr>task_id := ''t2''\<rparr>]\<rparr>"

text \<open>An environment whose clock stands still, as it does for calls that fall into the same
  millisecond.\<close>

definition still_clock :: "nat \<Rightarrow> int" where
  "still_clock n = 1706695200000"

definition still_env :: env where
  "still_env = example_env\<lparr>clock := still_clock\<rparr>"

definition example_operations :: "operation list" where
  "example_operations =
     [AddTask example_task ''k3x9q0a'',
      UpdateTask ''t1'' (no_updates\<lparr>u_isActive := Some False\<rparr>),
      ToggleTaskActive ''t1'',
      RunTask ''t1'',
      DeleteTask ''t1'']"

text \<open>A callback that always resolves; a collection with an inactive overdue task \<open>t1\<close> and
  an active overdue task \<open>t2\<close>; and the state reached from it when \<^verbatim>\<open>updateTask\<close> gives
  the second task the id of the first.\<close>

definition resolving_callback :: "SchedulerTask \<Rightarrow> outcome" where
  "resolving_callback task = Resolved"

definition callback_env :: env where
  "callback_env = example_env\<lparr>onTaskRun := Some resolving_callback\<rparr>"

definition mixed_state :: scheduler where
  "mixed_state =
     example_state\<lparr>tasks := [example_task\<lparr>isActive := False\<rparr>,
                              example_task\<lparr>task_id := ''t2''\<rparr>]\<rparr>"

definition shared_id_state :: scheduler where
  "shared_id_state = updateTask callback_env ''t2'' (no_updates\<lparr>u_id := Some ''t1''\<rparr>) mixed_state"

section \<open>Properties of the runtime\<close>

subsection \<open>Numbers\<close>

lemma finite_integer_num [simp]: "finite_integer (num n) = Some n"
  by (simp add: num_def)

lemma js_add_num [simp]: "js_add (num a) (num b) = num (a + b)"
  by (simp add: num_def)

subsection \<open>The calendar\<close>

text \<open>The year computed by \<open>YearFromTime\<close> is the one ECMA-262 defines: the largest year
  that starts on or before the day of \<open>t\<close>.\<close>

lemma DayFromYear_estimate:
  "146097 * (y - 1970) - 506 \<le> 400 * DayFromYear y \<and>
   400 * DayFromYear y \<le> 146097 * (y - 1970) + 589"
proof -
  define a where "a = (y - 1969) div 4"
  define b where "b = (y - 1901) div 100"
  define c where "c = (y - 1601) div 400"
  define ra where "ra = (y - 1969) mod 4"
  define rb where "rb = (y - 1901) mod 100"
  define rc where "rc = (y - 1601) mod 400"
  have ra: "0 \<le> ra" "ra < 4" and rb: "0 \<le> rb" "rb < 100" and rc: "0 \<le> rc" "rc < 400"
    unfolding ra_def rb_def rc_def by simp_all
  have "y - 1969 = 4 * a + ra"
    unfolding a_def ra_def by simp
  then have y: "y = 4 * a + ra + 1969"
    by simp
  have "y - 1901 = 100 * b + rb"
    unfolding b_def rb_def by simp
  then have b: "100 * b = 4 * a + ra + 68 - rb"
    using y by simp
  have "y - 1601 = 400 * c + rc"
    unfolding c_def rc_def by simp
  then have c: "400 * c = 4 * a + ra + 368 - rc"
    using y by simp
  have "400 * DayFromYear y = 146000 * (y - 1970) + 400 * a - 4 * (100 * b) + 400 * c"
    by (simp add: DayFromYear_def a_def b_def c_def)
  also have "\<dots> = 146000 * (4 * a + ra - 1) + 400 * a - 4 * (4 * a + ra + 68 - rb)
                     + (4 * a + ra + 368 - rc)"
    unfolding b c using y by simp
  finally have lhs: "400 * DayFromYear y = 584388 * a + 145997 * ra + 4 * rb - rc - 145904"
    by simp
  have rhs: "146097 * (y - 1970) = 584388 * a + 146097 * ra - 146097"
    using y by simp
  show ?thesis
    unfolding lhs rhs using ra rb rc by simp
qed

lemma YearFromTime_bounds:
  "DayFromYear (YearFromTime t) \<le> Day t \<and> Day t < DayFromYear (YearFromTime t + 1)"
proof -
  define d where "d = Day t"
  define e where "e = 1970 + (d * 400) div 146097"
  define r where "r = (d * 400) mod 146097"
  have r: "0 \<le> r" "r < 146097"
    unfolding r_def by simp_all
  have "d * 400 = 146097 * ((d * 400) div 146097) + r"
    unfolding r_def by simp
  then have d: "400 * d = 146097 * (e - 1970) + r"
    unfolding e_def by simp
  have "400 * DayFromYear (e - 1) \<le> 146097 * (e - 1 - 1970) + 589"
    using DayFromYear_estimate [of "e - 1"] by simp
  then have "400 * DayFromYear (e - 1) \<le> 400 * d"
    using d r by simp
  then have 1: "DayFromYear (e - 1) \<le> d"
    by simp
  have "146097 * (e + 2 - 1970) - 506 \<le> 400 * DayFromYear (e + 2)"
    using DayFromYear_estimate [of "e + 2"] by simp
  then have "400 * d < 400 * DayFromYear (e + 2)"
    using d r by simp
  then have 2: "d < DayFromYear (e + 2)"
    by simp
  have Y: "YearFromTime t =
      (if DayFromYear (e + 1) \<le> d then e + 1 else if DayFromYear e \<le> d then e else e - 1)"
    by (simp add: YearFromTime_def Let_def d_def e_def)
  have 3: "e + 1 + 1 = e + 2"
    by simp
  show ?thesis
    unfolding Y d_def [symmetric] using 1 2 by (simp add: 3)
qed

lemma DayFromYear_next: "DayFromYear (y + 1) \<le> DayFromYear y + 367"
proof -
  have "400 * DayFromYear (y + 1) \<le> 146097 * (y + 1 - 1970) + 589"
    using DayFromYear_estimate [of "y + 1"] by simp
  moreover have "146097 * (y - 1970) - 506 \<le> 400 * DayFromYear y"
    using DayFromYear_estimate [of y] by simp
  ultimately have "400 * DayFromYear (y + 1) \<le> 400 * DayFromYear y + 147192"
    by simp
  then show ?thesis
    by simp
qed

lemma DayWithinYear_bounds: "0 \<le> DayWithinYear t \<and> DayWithinYear t < 367"
  using YearFromTime_bounds [of t] DayFromYear_next [of "YearFromTime t"]
  by (simp add: DayWithinYear_def)

lemma MonthFromTime_range: "0 \<le> MonthFromTime t \<and> MonthFromTime t \<le> 11"
  by (simp add: MonthFromTime_def Let_def)

lemma InLeapYear_range: "InLeapYear t = 0 \<or> InLeapYear t = 1"
  by (simp add: InLeapYear_def)

lemma DateFromTime_eq:
  "DateFromTime t = DayWithinYear t - MonthStart (MonthFromTime t) (InLeapYear t) + 1"
  by (simp add: DateFromTime_def MonthStart_def Let_def)

lemma MonthStart_bounds:
  "0 \<le> MonthStart (MonthFromTime t) (InLeapYear t) \<and>
   MonthStart (MonthFromTime t) (InLeapYear t) \<le> DayWithinYear t"
  using DayWithinYear_bounds [of t] InLeapYear_range [of t]
  by (auto simp: MonthStart_def MonthFromTime_def Let_def)

lemma MakeDay_same_month:
  assumes "\<bar>t\<bar> \<le> 8100000000000000"
  shows "MakeDay (num (YearFromTime t)) (num (MonthFromTime t)) (num (DateFromTime t + k))
         = Some (Day t + k)"
proof -
  define Y where "Y = YearFromTime t"
  define M where "M = MonthFromTime t"
  define first where "first = DayFromYear Y + MonthStart M (InLeapYear t)"
  have M: "M div 12 = 0" "M mod 12 = M"
    using MonthFromTime_range [of t] unfolding M_def by simp_all
  have leap: "(if DaysInYear Y = 366 then 1 else 0) = InLeapYear t"
    by (simp add: InLeapYear_def Y_def)
  have day: "first + (DateFromTime t + k) - 1 = Day t + k"
    by (simp add: first_def DateFromTime_eq DayWithinYear_def Y_def M_def)
  have "Day t - 367 \<le> DayFromYear Y"
    using YearFromTime_bounds [of t] DayFromYear_next [of Y] unfolding Y_def by simp
  then have lo: "Day t - 367 \<le> first"
    using MonthStart_bounds [of t] unfolding first_def M_def by simp
  have hi: "first \<le> Day t"
    using MonthStart_bounds [of t] unfolding first_def M_def DayWithinYear_def Y_def by simp
  have "t div 86400000 \<le> 8100000000000000 div 86400000"
    using assms by (intro zdiv_mono1) simp_all
  moreover have "(- 8100000000000000) div 86400000 \<le> t div 86400000"
    using assms by (intro zdiv_mono1) simp_all
  ultimately have "- 93750000 \<le> Day t" "Day t \<le> 93750000"
    unfolding Day_def msPerDay_def by simp_all
  then have range: "\<bar>first * msPerDay\<bar> \<le> maxTimeValue"
    using lo hi unfolding msPerDay_def maxTimeValue_def by (simp add: abs_le_iff)
  show ?thesis
    unfolding MakeDay_def
    using M leap day range
    by (simp add: Let_def Y_def [symmetric] M_def [symmetric] first_def [symmetric])
qed

lemma WeekDay_range: "0 \<le> WeekDay t \<and> WeekDay t < 7"
  by (simp add: WeekDay_def)

lemma Day_floor: "Day t * msPerDay \<le> t \<and> t < Day t * msPerDay + msPerDay"
proof -
  have "t = t div 86400000 * 86400000 + t mod 86400000"
    by simp
  moreover have "0 \<le> t mod 86400000" "t mod 86400000 < 86400000"
    by simp_all
  ultimately show ?thesis
    unfolding Day_def msPerDay_def by linarith
qed

lemma Day_next: "Day (t + k * msPerDay) = Day t + k"
  by (simp add: Day_def msPerDay_def)

lemma time_decomposition:
  "t = Day t * msPerDay + HourFromTime t * msPerHour + MinFromTime t * msPerMinute
       + SecFromTime t * msPerSecond + msFromTime t"
proof -
  have a: "t mod 86400000 = 3600000 * (t div 3600000 mod 24) + t mod 3600000"
    using zmod_zmult2_eq [of 24 t 3600000] by simp
  have b: "t mod 3600000 = 60000 * (t div 60000 mod 60) + t mod 60000"
    using zmod_zmult2_eq [of 60 t 60000] by simp
  have c: "t mod 60000 = 1000 * (t div 1000 mod 60) + t mod 1000"
    using zmod_zmult2_eq [of 60 t 1000] by simp
  have d: "t = t div 86400000 * 86400000 + t mod 86400000"
    by simp
  show ?thesis
    unfolding Day_def HourFromTime_def MinFromTime_def SecFromTime_def msFromTime_def
      msPerDay_def msPerHour_def msPerMinute_def msPerSecond_def
    using a b c d by linarith
qed

lemma MinFromTime_shift: "MinFromTime (t + k * msPerHour) = MinFromTime t"
proof -
  have "(t + (k * 60) * 60000) div 60000 = t div 60000 + k * 60"
    by simp
  then have "(t + k * 3600000) div 60000 = t div 60000 + k * 60"
    by simp
  then show ?thesis
    by (simp add: MinFromTime_def msPerHour_def msPerMinute_def)
qed

lemma SecFromTime_shift: "SecFromTime (t + k * msPerMinute) = SecFromTime t"
proof -
  have "(t + (k * 60) * 1000) div 1000 = t div 1000 + k * 60"
    by simp
  then have "(t + k * 60000) div 1000 = t div 1000 + k * 60"
    by simp
  then show ?thesis
    by (simp add: SecFromTime_def msPerSecond_def msPerMinute_def)
qed

lemma msFromTime_shift: "msFromTime (t + k * msPerSecond) = msFromTime t"
  by (simp add: msFromTime_def msPerSecond_def)

subsection \<open>The setters\<close>

text \<open>Each setter, applied to a valid date and an integral argument, moves the time value
  by the difference between the new and the old field; adding to \<^verbatim>\<open>getDate()\<close> moves it
  by whole days.\<close>

lemma TimeClip_Some: "\<bar>v\<bar> \<le> maxTimeValue \<Longrightarrow> TimeClip (Some v) = Some v"
  by (simp add: TimeClip_def)

lemma setDate_getDate_add:
  assumes "\<bar>u + z\<bar> \<le> 8100000000000000"
  shows "setDate z (js_add (getDate z (Some u)) (num k)) (Some u) = TimeClip (Some (u + k * msPerDay))"
proof -
  define t where "t = u + z"
  have "t = Day t * msPerDay + TimeWithinDay t"
    by (simp add: Day_def TimeWithinDay_def)
  moreover have "(Day t + k) * msPerDay = Day t * msPerDay + k * msPerDay"
    by (rule distrib_right)
  ultimately have eq: "(Day t + k) * msPerDay + TimeWithinDay t - z = u + k * msPerDay"
    using t_def by linarith
  have "setDate z (js_add (getDate z (Some u)) (num k)) (Some u)
        = TimeClip (Some ((Day t + k) * msPerDay + TimeWithinDay t - z))"
    using MakeDay_same_month [of t k] assms
    by (simp add: setDate_def getDate_def LocalTime_def Let_def UTC_def MakeDate_def t_def [symmetric])
  then show ?thesis
    unfolding eq .
qed

lemma setHours_num:
  "setHours z (num h) (Some u)
   = TimeClip (Some (u + (h - HourFromTime (u + z)) * msPerHour))"
proof -
  define t where "t = u + z"
  have "(h - HourFromTime t) * msPerHour = h * msPerHour - HourFromTime t * msPerHour"
    by (rule left_diff_distrib)
  then have eq: "Day t * msPerDay + (h * msPerHour + MinFromTime t * msPerMinute
          + SecFromTime t * msPerSecond + msFromTime t) - z
        = u + (h - HourFromTime t) * msPerHour"
    using time_decomposition [of t] t_def by linarith
  have A: "setHours z (num h) (Some u)
        = TimeClip (Some (Day t * msPerDay + (h * msPerHour + MinFromTime t * msPerMinute
          + SecFromTime t * msPerSecond + msFromTime t) - z))"
    by (simp add: setHours_def LocalTime_def Let_def UTC_def MakeDate_def MakeTime_def
        t_def [symmetric])
  show ?thesis
    unfolding A unfolding eq unfolding t_def by (rule refl)
qed

lemma setMinutes_num:
  "setMinutes z (num m) (Some u)
   = TimeClip (Some (u + (m - MinFromTime (u + z)) * msPerMinute))"
proof -
  define t where "t = u + z"
  have "(m - MinFromTime t) * msPerMinute = m * msPerMinute - MinFromTime t * msPerMinute"
    by (rule left_diff_distrib)
  then have eq: "Day t * msPerDay + (HourFromTime t * msPerHour + m * msPerMinute
          + SecFromTime t * msPerSecond + msFromTime t) - z
        = u + (m - MinFromTime t) * msPerMinute"
    using time_decomposition [of t] t_def by linarith
  have A: "setMinutes z (num m) (Some u)
        = TimeClip (Some (Day t * msPerDay + (HourFromTime t * msPerHour + m * msPerMinute
          + SecFromTime t * msPerSecond + msFromTime t) - z))"
    by (simp add: setMinutes_def LocalTime_def Let_def UTC_def MakeDate_def MakeTime_def
        t_def [symmetric])
  show ?thesis
    unfolding A unfolding eq unfolding t_def by (rule refl)
qed

lemma setSeconds_num:
  "setSeconds z (num s) (Some u)
   = TimeClip (Some (u + (s - SecFromTime (u + z)) * msPerSecond))"
proof -
  define t where "t = u + z"
  have "(s - SecFromTime t) * msPerSecond = s * msPerSecond - SecFromTime t * msPerSecond"
    by (rule left_diff_distrib)
  then have eq: "Day t * msPerDay + (HourFromTime t * msPerHour + MinFromTime t * msPerMinute
          + s * msPerSecond + msFromTime t) - z
        = u + (s - SecFromTime t) * msPerSecond"
    using time_decomposition [of t] t_def by linarith
  have A: "setSeconds z (num s) (Some u)
        = TimeClip (Some (Day t * msPerDay + (HourFromTime t * msPerHour + MinFromTime t * msPerMinute
          + s * msPerSecond + msFromTime t) - z))"
    by (simp add: setSeconds_def LocalTime_def Let_def UTC_def MakeDate_def MakeTime_def
        t_def [symmetric])
  show ?thesis
    unfolding A unfolding eq unfolding t_def by (rule refl)
qed

lemma setMilliseconds_num:
  "setMilliseconds z (num ms) (Some u)
   = TimeClip (Some (u + (ms - msFromTime (u + z))))"
proof -
  define t where "t = u + z"
  have eq: "Day t * msPerDay + (HourFromTime t * msPerHour + MinFromTime t * msPerMinute
          + SecFromTime t * msPerSecond + ms) - z
        = u + (ms - msFromTime t)"
    using time_decomposition [of t] t_def by linarith
  have A: "setMilliseconds z (num ms) (Some u)
        = TimeClip (Some (Day t * msPerDay + (HourFromTime t * msPerHour + MinFromTime t * msPerMinute
          + SecFromTime t * msPerSecond + ms) - z))"
    by (simp add: setMilliseconds_def LocalTime_def Let_def UTC_def MakeDate_def MakeTime_def
        t_def [symmetric])
  show ?thesis
    unfolding A unfolding eq unfolding t_def by (rule refl)
qed

lemma set_time_of_day:
  assumes u: "\<bar>u\<bar> \<le> 8200000000000000" and z: "\<bar>z\<bar> \<le> msPerDay"
    and h: "\<bar>h\<bar> \<le> 1000000" and m: "\<bar>m\<bar> \<le> 1000000"
  shows "setMilliseconds z (num 0) (setSeconds z (num 0) (setMinutes z (num m)
           (setHours z (num h) (Some u))))
         = Some (Day (u + z) * msPerDay + h * msPerHour + m * msPerMinute - z)"
proof -
  define t where "t = u + z"
  define H where "H = HourFromTime t"
  define Mi where "Mi = MinFromTime t"
  define S where "S = SecFromTime t"
  define r where "r = msFromTime t"
  have H: "0 \<le> H" "H < 24" and Mi: "0 \<le> Mi" "Mi < 60" and S: "0 \<le> S" "S < 60"
    and r: "0 \<le> r" "r < 1000"
    unfolding H_def Mi_def S_def r_def HourFromTime_def MinFromTime_def SecFromTime_def
      msFromTime_def msPerSecond_def by simp_all
  have dec: "t = Day t * 86400000 + H * 3600000 + Mi * 60000 + S * 1000 + r"
    using time_decomposition [of t]
    unfolding H_def Mi_def S_def r_def msPerDay_def msPerHour_def msPerMinute_def msPerSecond_def .
  define u1 where "u1 = u + (h - H) * 3600000"
  define u2 where "u2 = u1 + (m - Mi) * 60000"
  define u3 where "u3 = u2 + (0 - S) * 1000"
  define u4 where "u4 = u3 + (0 - r)"
  have b1: "\<bar>u1\<bar> \<le> maxTimeValue"
    using u h H unfolding u1_def maxTimeValue_def by simp
  have b2: "\<bar>u2\<bar> \<le> maxTimeValue"
    using u h H m Mi unfolding u2_def u1_def maxTimeValue_def by simp
  have b3: "\<bar>u3\<bar> \<le> maxTimeValue"
    using u h H m Mi S unfolding u3_def u2_def u1_def maxTimeValue_def by simp
  have b4: "\<bar>u4\<bar> \<le> maxTimeValue"
    using u h H m Mi S r unfolding u4_def u3_def u2_def u1_def maxTimeValue_def by simp
  have s1: "setHours z (num h) (Some u) = Some u1"
    unfolding setHours_num using b1
    by (simp add: TimeClip_Some u1_def H_def t_def msPerHour_def)
  have "u1 + z = t + (h - H) * msPerHour"
    unfolding u1_def t_def msPerHour_def by simp
  then have "MinFromTime (u1 + z) = Mi"
    unfolding Mi_def by (simp only: MinFromTime_shift)
  then have s2: "setMinutes z (num m) (Some u1) = Some u2"
    unfolding setMinutes_num using b2
    by (simp add: TimeClip_Some u2_def msPerMinute_def)
  have "u2 + z = t + ((h - H) * 60 + (m - Mi)) * msPerMinute"
    unfolding u2_def u1_def t_def msPerMinute_def by simp
  then have "SecFromTime (u2 + z) = S"
    unfolding S_def by (simp only: SecFromTime_shift)
  then have s3: "setSeconds z (num 0) (Some u2) = Some u3"
    unfolding setSeconds_num using b3
    by (simp add: TimeClip_Some u3_def msPerSecond_def)
  have "u3 + z = t + (((h - H) * 60 + (m - Mi)) * 60 - S) * msPerSecond"
    unfolding u3_def u2_def u1_def t_def msPerSecond_def by simp
  then have "msFromTime (u3 + z) = r"
    unfolding r_def by (simp only: msFromTime_shift)
  then have s4: "setMilliseconds z (num 0) (Some u3) = Some u4"
    unfolding setMilliseconds_num using b4
    by (simp add: TimeClip_Some u4_def)
  have "u4 = Day t * 86400000 + h * 3600000 + m * 60000 - z"
    using dec unfolding u4_def u3_def u2_def u1_def t_def by simp
  then have "u4 = Day (u + z) * msPerDay + h * msPerHour + m * msPerMinute - z"
    unfolding t_def msPerDay_def msPerHour_def msPerMinute_def .
  then show ?thesis
    unfolding s1 s2 s3 s4 by simp
qed

lemma setHours_NaN: "setHours z NaN d = None"
  by (simp add: setHours_def MakeTime_def MakeDate_def UTC_def TimeClip_def Let_def
      split: option.splits)

section \<open>Properties of the frequency rules\<close>

text \<open>The value of each rule on a valid time value \<open>u\<close>, for a time zone offset of at most
  a day.\<close>

lemma hourly_rule_value:
  assumes u: "\<bar>u\<bar> \<le> 8000000000000000" and z: "\<bar>z\<bar> \<le> msPerDay"
  shows "hourly_rule z (Some u)
         = Some (Day (u + z) * msPerDay + (HourFromTime (u + z) + 1) * msPerHour - z)"
proof -
  have H: "0 \<le> HourFromTime (u + z)" "HourFromTime (u + z) < 24"
    by (simp_all add: HourFromTime_def)
  have "\<bar>u\<bar> \<le> 8200000000000000"
    using u by simp
  then have "setMilliseconds z (num 0) (setSeconds z (num 0) (setMinutes z (num 0)
               (setHours z (num (HourFromTime (u + z) + 1)) (Some u))))
             = Some (Day (u + z) * msPerDay + (HourFromTime (u + z) + 1) * msPerHour
                     + 0 * msPerMinute - z)"
    using z by (rule set_time_of_day) (use H in simp_all)
  then show ?thesis
    by (simp add: hourly_rule_def Let_def getHours_def LocalTime_def)
qed

lemma daily_rule_value:
  assumes u: "\<bar>u\<bar> \<le> 8000000000000000" and z: "\<bar>z\<bar> \<le> msPerDay"
  shows "daily_rule z (Some u) = Some ((Day (u + z) + 1) * msPerDay + 9 * msPerHour - z)"
proof -
  have "\<bar>u + z\<bar> \<le> 8100000000000000"
    using u z unfolding msPerDay_def by simp
  then have "setDate z (js_add (getDate z (Some u)) (num 1)) (Some u)
             = TimeClip (Some (u + 1 * msPerDay))"
    by (rule setDate_getDate_add)
  moreover have "\<bar>u + 1 * msPerDay\<bar> \<le> maxTimeValue"
    using u unfolding msPerDay_def maxTimeValue_def by simp
  ultimately have d0: "setDate z (js_add (getDate z (Some u)) (num 1)) (Some u)
                       = Some (u + 1 * msPerDay)"
    by (simp only: TimeClip_Some)
  have "\<bar>u + 1 * msPerDay\<bar> \<le> 8200000000000000"
    using u unfolding msPerDay_def by simp
  then have "setMilliseconds z (num 0) (setSeconds z (num 0) (setMinutes z (num 0)
               (setHours z (num 9) (Some (u + 1 * msPerDay)))))
             = Some (Day (u + 1 * msPerDay + z) * msPerDay + 9 * msPerHour + 0 * msPerMinute - z)"
    using z by (rule set_time_of_day) simp_all
  moreover have "u + 1 * msPerDay + z = (u + z) + 1 * msPerDay"
    by simp
  then have "Day (u + 1 * msPerDay + z) = Day (u + z) + 1"
    by (simp only: Day_next)
  ultimately show ?thesis
    using d0 by (simp add: daily_rule_def Let_def)
qed

lemma weekly_rule_value:
  assumes u: "\<bar>u\<bar> \<le> 8000000000000000" and z: "\<bar>z\<bar> \<le> msPerDay"
  shows "weekly_rule z (Some u)
         = Some ((Day (u + z) + (7 - WeekDay (u + z))) * msPerDay + 9 * msPerHour - z)"
proof -
  define k where "k = 7 - WeekDay (u + z)"
  have k: "1 \<le> k" "k \<le> 7"
    using WeekDay_range [of "u + z"] unfolding k_def by simp_all
  have or: "js_or (js_sub (num 7) (getDay z (Some u))) (num 7) = num k"
    using k by (simp add: getDay_def LocalTime_def js_sub_def js_or_def num_def k_def)
  have "\<bar>u + z\<bar> \<le> 8100000000000000"
    using u z unfolding msPerDay_def by simp
  then have "setDate z (js_add (getDate z (Some u)) (num k)) (Some u)
             = TimeClip (Some (u + k * msPerDay))"
    by (rule setDate_getDate_add)
  moreover have "\<bar>u + k * msPerDay\<bar> \<le> maxTimeValue"
    using u k unfolding msPerDay_def maxTimeValue_def by simp
  ultimately have d0: "setDate z (js_add (getDate z (Some u)) (num k)) (Some u)
                       = Some (u + k * msPerDay)"
    by (simp only: TimeClip_Some)
  have "\<bar>u + k * msPerDay\<bar> \<le> 8200000000000000"
    using u k unfolding msPerDay_def by simp
  then have "setMilliseconds z (num 0) (setSeconds z (num 0) (setMinutes z (num 0)
               (setHours z (num 9) (Some (u + k * msPerDay)))))
             = Some (Day (u + k * msPerDay + z) * msPerDay + 9 * msPerHour + 0 * msPerMinute - z)"
    using z by (rule set_time_of_day) simp_all
  moreover have "u + k * msPerDay + z = (u + z) + k * msPerDay"
    by simp
  then have "Day (u + k * msPerDay + z) = Day (u + z) + k"
    by (simp only: Day_next)
  ultimately show ?thesis
    using or d0 by (simp add: weekly_rule_def Let_def k_def)
qed

lemma weekly_rule_sunday:
  assumes "\<bar>u\<bar> \<le> 8000000000000000" and "\<bar>z\<bar> \<le> msPerDay"
  shows "getDay z (weekly_rule z (Some u)) = num 0"
proof -
  define a where "a = Day (u + z) + 4"
  have "(Day (u + z) + (7 - WeekDay (u + z))) * 86400000 + 32400000
        = 32400000 + (a - a mod 7 + 3) * 86400000"
    by (simp add: WeekDay_def a_def)
  then have "Day ((Day (u + z) + (7 - WeekDay (u + z))) * msPerDay + 9 * msPerHour)
             = a - a mod 7 + 3"
    by (simp add: Day_def msPerDay_def msPerHour_def)
  moreover have "(a - a mod 7 + 3 + 4) mod 7 = 0"
    by (simp add: minus_mod_eq_mult_div)
  ultimately have "WeekDay ((Day (u + z) + (7 - WeekDay (u + z))) * msPerDay + 9 * msPerHour) = 0"
    by (simp add: WeekDay_def)
  then show ?thesis
    by (simp add: weekly_rule_value [OF assms] getDay_def LocalTime_def)
qed

lemma default_rule_value:
  assumes u: "\<bar>u\<bar> \<le> 8000000000000000" and z: "\<bar>z\<bar> \<le> msPerDay"
  shows "default_rule z (Some u) = Some (u + msPerDay)"
proof -
  have "\<bar>u + z\<bar> \<le> 8100000000000000"
    using u z unfolding msPerDay_def by simp
  then have "setDate z (js_add (getDate z (Some u)) (num 1)) (Some u)
             = TimeClip (Some (u + 1 * msPerDay))"
    by (rule setDate_getDate_add)
  moreover have "\<bar>u + 1 * msPerDay\<bar> \<le> maxTimeValue"
    using u unfolding msPerDay_def maxTimeValue_def by simp
  ultimately show ?thesis
    by (simp add: default_rule_def TimeClip_Some)
qed

lemma custom_rule_parsed:
  assumes c: "c \<noteq> []" "map js_Number (split CHR '':'' c) = [num h, num m]"
    and u: "\<bar>u\<bar> \<le> 8000000000000000" and z: "\<bar>z\<bar> \<le> msPerDay"
    and h: "\<bar>h\<bar> \<le> 1000000" and m: "\<bar>m\<bar> \<le> 1000000"
  shows "custom_rule z (Some c) (Some u)
         = Some ((Day (u + z) + 1) * msPerDay + h * msPerHour + m * msPerMinute - z)"
proof -
  have "\<bar>u + z\<bar> \<le> 8100000000000000"
    using u z unfolding msPerDay_def by simp
  then have "setDate z (js_add (getDate z (Some u)) (num 1)) (Some u)
             = TimeClip (Some (u + 1 * msPerDay))"
    by (rule setDate_getDate_add)
  moreover have "\<bar>u + 1 * msPerDay\<bar> \<le> maxTimeValue"
    using u unfolding msPerDay_def maxTimeValue_def by simp
  ultimately have d0: "setDate z (js_add (getDate z (Some u)) (num 1)) (Some u)
                       = Some (u + 1 * msPerDay)"
    by (simp only: TimeClip_Some)
  have "\<bar>u + 1 * msPerDay\<bar> \<le> 8200000000000000"
    using u unfolding msPerDay_def by simp
  then have "setMilliseconds z (num 0) (setSeconds z (num 0) (setMinutes z (num m)
               (setHours z (num h) (Some (u + 1 * msPerDay)))))
             = Some (Day (u + 1 * msPerDay + z) * msPerDay + h * msPerHour + m * msPerMinute - z)"
    using z h m by (rule set_time_of_day)
  moreover have "Day (u + 1 * msPerDay + z) = Day (u + z) + 1"
    using Day_next [of "u + z" 1] by (simp add: add.commute add.left_commute)
  ultimately show ?thesis
    using c d0 by (simp add: custom_rule_def element_def Let_def)
qed

lemma parse_neg48: "map js_Number (split CHR '':'' ''-48:00'') = [num (- 48), num 0]"
  by code_simp

lemma custom_rule_not_a_time: "custom_rule z (Some ''not-a-time'') d = None"
proof -
  have "map js_Number (split CHR '':'' ''not-a-time'') = [NaN]"
    by code_simp
  then show ?thesis
    by (simp add: custom_rule_def element_def Let_def setHours_NaN setMinutes_def
        setSeconds_def setMilliseconds_def)
qed

lemma candidate_custom:
  "frequency task = ''custom'' \<Longrightarrow> candidate z task d = custom_rule z (customCron task) d"
  by (simp add: candidate_def)

lemma candidate_later:
  assumes f: "frequency task \<noteq> ''monthly''" "frequency task \<noteq> ''custom''"
    and u: "\<bar>u\<bar> \<le> 8000000000000000" and z: "\<bar>z\<bar> \<le> msPerDay"
  shows "\<exists>v. candidate z task (Some u) = Some v \<and> u < v"
proof -
  define t where "t = u + z"
  have day: "Day t * msPerDay \<le> t" "t < Day t * msPerDay + msPerDay"
    using Day_floor [of t] by simp_all
  consider (h) "frequency task = ''hourly''" | (d) "frequency task = ''daily''"
    | (w) "frequency task = ''weekly''"
    | (o) "frequency task \<noteq> ''hourly''" "frequency task \<noteq> ''daily''"
          "frequency task \<noteq> ''weekly''"
    by blast
  then show ?thesis
  proof cases
    case h
    have "t = Day t * msPerDay + HourFromTime t * msPerHour + MinFromTime t * msPerMinute
              + SecFromTime t * msPerSecond + msFromTime t"
      by (rule time_decomposition)
    moreover have "MinFromTime t * msPerMinute + SecFromTime t * msPerSecond + msFromTime t
                   < msPerHour"
    proof -
      have "MinFromTime t < 60" "SecFromTime t < 60" "msFromTime t < 1000"
        unfolding MinFromTime_def SecFromTime_def msFromTime_def msPerSecond_def
        by simp_all
      then show ?thesis
        unfolding msPerMinute_def msPerSecond_def msPerHour_def by linarith
    qed
    moreover have "(HourFromTime t + 1) * msPerHour = HourFromTime t * msPerHour + msPerHour"
      by (simp add: distrib_right)
    ultimately have "u < Day t * msPerDay + (HourFromTime t + 1) * msPerHour - z"
      unfolding t_def by linarith
    then show ?thesis
      using h hourly_rule_value [OF u z] by (simp add: candidate_def t_def)
  next
    case d
    have "(Day t + 1) * msPerDay = Day t * msPerDay + msPerDay"
      by (simp add: distrib_right)
    then have "u < (Day t + 1) * msPerDay + 9 * msPerHour - z"
      using day unfolding t_def msPerHour_def by linarith
    then show ?thesis
      using d daily_rule_value [OF u z] by (simp add: candidate_def t_def)
  next
    case w
    have "1 \<le> 7 - WeekDay t"
      using WeekDay_range [of t] by simp
    then have "msPerDay \<le> (7 - WeekDay t) * msPerDay"
      unfolding msPerDay_def by simp
    moreover have "(Day t + (7 - WeekDay t)) * msPerDay
                   = Day t * msPerDay + (7 - WeekDay t) * msPerDay"
      by (simp add: distrib_right)
    ultimately have "u < (Day t + (7 - WeekDay t)) * msPerDay + 9 * msPerHour - z"
      using day unfolding t_def msPerHour_def by linarith
    then show ?thesis
      using w weekly_rule_value [OF u z] by (simp add: candidate_def t_def)
  next
    case o
    then show ?thesis
      using f default_rule_value [OF u z] by (simp add: candidate_def msPerDay_def)
  qed
qed

section \<open>Properties of the recursion\<close>

text \<open>For the frequencies other than monthly and custom the first candidate is after
  \<^verbatim>\<open>now\<close>, and the function returns it without calling itself. For a custom schedule of
  \<^verbatim>\<open>"-48:00"\<close>, and for a custom task without a schedule while the clock stands still,
  every activation calls the next one.\<close>

lemma steady_step:
  assumes "steady e k (2 * Suc room)"
  shows "steady e (k + 2) (2 * room)"
    and "\<bar>clock e (Suc k)\<bar> \<le> 8000000000000000"
    and "clock e (Suc k) \<le> clock e k + msPerDay"
    and "\<bar>localTZA e\<bar> \<le> msPerDay"
proof -
  have all: "\<And>i. i < 2 * Suc room \<Longrightarrow> \<bar>clock e (k + i)\<bar> \<le> 8000000000000000 \<and>
            clock e (k + i + 1) \<le> clock e (k + i) + msPerDay"
    and z: "\<bar>localTZA e\<bar> \<le> msPerDay"
    using assms unfolding steady_def by simp_all
  show "\<bar>localTZA e\<bar> \<le> msPerDay"
    by (rule z)
  show "\<bar>clock e (Suc k)\<bar> \<le> 8000000000000000"
    using all [of 1] by simp
  show "clock e (Suc k) \<le> clock e k + msPerDay"
    using all [of 0] by simp
  show "steady e (k + 2) (2 * room)"
    unfolding steady_def
  proof (intro conjI allI impI)
    fix i assume "i < 2 * room"
    then have "i + 2 < 2 * Suc room" by simp
    from all [OF this]
    show "\<bar>clock e (k + 2 + i)\<bar> \<le> 8000000000000000"
      and "clock e (k + 2 + i + 1) \<le> clock e (k + 2 + i) + msPerDay"
      by (simp_all add: add.commute add.left_commute)
  qed (rule z)
qed

lemma calculateNextRunTime_later:
  assumes "frequency task \<noteq> ''monthly''" "frequency task \<noteq> ''custom''"
    and "steady e k 2" and "clock e k \<le> clock e (Suc k)"
  shows "\<exists>v. calculateNextRunTime e (Suc room) task k = (Inr (Some v), k + 2) \<and> clock e k < v"
proof -
  have "\<bar>clock e (Suc k)\<bar> \<le> 8000000000000000" "\<bar>localTZA e\<bar> \<le> msPerDay"
    using steady_step [of e k 0] assms(3) by simp_all
  with assms(1,2) obtain v where
    v: "candidate (localTZA e) task (Some (clock e (Suc k))) = Some v" "clock e (Suc k) < v"
    using candidate_later by blast
  then have "\<not> date_le (Some v) (Some (clock e k))"
    using assms(4) by (simp add: date_le_def)
  with v show ?thesis
    using assms(4) by simp
qed

lemma custom_neg48_exhausts:
  assumes "frequency task = ''custom''" "customCron task = Some ''-48:00''"
    and "steady e k (2 * room)"
  shows "calculateNextRunTime e room task k = (Inl StackExhausted, k + 2 * room)"
  using assms
proof (induction room arbitrary: task k)
  case 0
  then show ?case by simp
next
  case (Suc room)
  define u where "u = clock e (Suc k)"
  define z where "z = localTZA e"
  note st = steady_step [OF Suc.prems(3)]
  have u: "\<bar>u\<bar> \<le> 8000000000000000" and z: "\<bar>z\<bar> \<le> msPerDay"
    and gap: "u \<le> clock e k + msPerDay"
    using st unfolding u_def z_def by simp_all
  have "custom_rule z (Some ''-48:00'') (Some u)
        = Some ((Day (u + z) + 1) * msPerDay + (- 48) * msPerHour + 0 * msPerMinute - z)"
    using _ parse_neg48 u z by (rule custom_rule_parsed) simp_all
  then have cand: "candidate z task (Some u) = Some (Day (u + z) * msPerDay - msPerDay - z)"
    using Suc.prems(1,2) by (simp add: candidate_custom msPerDay_def msPerHour_def)
  have "Day (u + z) * msPerDay \<le> u + z"
    unfolding Day_def msPerDay_def by simp
  then have le: "date_le (Some (Day (u + z) * msPerDay - msPerDay - z)) (Some (clock e k))"
    using gap by (simp add: date_le_def)
  have "calculateNextRunTime e room (task\<lparr>lastRunTime := Some (Some (clock e k))\<rparr>) (k + 2)
        = (Inl StackExhausted, k + 2 + 2 * room)"
    using Suc.prems(1,2) st(1) by (intro Suc.IH) simp_all
  then show ?case
    using cand le by (simp add: u_def [symmetric] z_def [symmetric])
qed

lemma custom_without_cron_exhausts:
  assumes "frequency task = ''custom''" "customCron task = None"
    and "\<forall>i<room. clock e (k + 2 * i + 1) \<le> clock e (k + 2 * i)"
  shows "calculateNextRunTime e room task k = (Inl StackExhausted, k + 2 * room)"
  using assms
proof (induction room arbitrary: task k)
  case 0
  then show ?case by simp
next
  case (Suc room)
  have now: "clock e (Suc k) \<le> clock e k"
    using Suc.prems(3) [rule_format, of 0] by simp
  have "\<forall>i<room. clock e (k + 2 + 2 * i + 1) \<le> clock e (k + 2 + 2 * i)"
  proof (intro allI impI)
    fix i assume "i < room"
    then have "Suc i < Suc room" by simp
    with Suc.prems(3) have "clock e (k + 2 * Suc i + 1) \<le> clock e (k + 2 * Suc i)"
      by blast
    then show "clock e (k + 2 + 2 * i + 1) \<le> clock e (k + 2 + 2 * i)"
      by (simp add: add.commute add.left_commute)
  qed
  with Suc.prems(1,2)
  have "calculateNextRunTime e room (task\<lparr>lastRunTime := Some (Some (clock e k))\<rparr>) (k + 2)
        = (Inl StackExhausted, k + 2 + 2 * room)"
    by (intro Suc.IH) simp_all
  then show ?case
    using Suc.prems(1,2) now by (simp add: candidate_custom custom_rule_def date_le_def)
qed

section \<open>Properties of the lifecycle operations\<close>

lemma findIndex_None: "(\<forall>x\<in>set xs. \<not> P x) \<Longrightarrow> findIndex P xs = None"
  by (induction xs) simp_all

lemma findIndex_Some: "findIndex P xs = Some i \<Longrightarrow> i < length xs \<and> P (xs ! i)"
proof (induction xs arbitrary: i)
  case Nil
  then show ?case by simp
next
  case (Cons a xs)
  then show ?case
    by (cases "P a") (auto simp: nth_Cons')
qed

lemma find_update_first:
  "find P xs = Some x \<Longrightarrow> P y \<Longrightarrow>
   \<exists>i. findIndex P xs = Some i \<and> xs ! i = x \<and> find P (xs[i := y]) = Some y"
proof (induction xs)
  case Nil
  then show ?case by simp
next
  case (Cons a xs)
  show ?case
  proof (cases "P a")
    case True
    with Cons.prems show ?thesis by simp
  next
    case False
    with Cons.prems have "find P xs = Some x" by simp
    from Cons.IH [OF this Cons.prems(2)] obtain i where
      "findIndex P xs = Some i" "xs ! i = x" "find P (xs[i := y]) = Some y"
      by blast
    with False show ?thesis by simp
  qed
qed

lemma map_update_same:
  "i < length xs \<Longrightarrow> f y = f (xs ! i) \<Longrightarrow> map f (xs[i := y]) = map f xs"
  by (simp add: list_eq_iff_nth_eq nth_list_update)

lemma tasks_saveTasks [simp]: "tasks (saveTasks e ts s) = tasks s"
  by (simp add: saveTasks_def addNotification_def)

lemma ticks_saveTasks [simp]: "ticks (saveTasks e ts s) = ticks s"
  by (simp add: saveTasks_def addNotification_def)

lemma invoked_saveTasks [simp]: "invoked (saveTasks e ts s) = invoked s"
  by (simp add: saveTasks_def addNotification_def)

lemma invoked_addNotification [simp]: "invoked (addNotification sev msg s) = invoked s"
  by (simp add: addNotification_def)

lemma tasks_addNotification [simp]: "tasks (addNotification sev msg s) = tasks s"
  by (simp add: addNotification_def)

lemma task_id_spread: "u_id updates = None \<Longrightarrow> task_id (spread t updates) = task_id t"
  by (simp add: spread_def override_def)

lemma find_updateTask:
  assumes "find (\<lambda>t. task_id t = taskId) (tasks s) = Some task" and "u_id updates = None"
  shows "find (\<lambda>t. task_id t = taskId) (tasks (updateTask e taskId updates s))
         = Some ((spread task updates)\<lparr>updatedAt := Some (clock e (ticks s))\<rparr>)"
proof -
  define y where "y = (spread task updates)\<lparr>updatedAt := Some (clock e (ticks s))\<rparr>"
  have "task_id task = taskId"
    using assms(1) by (auto dest: find_Some_iff [THEN iffD1])
  then have "task_id y = taskId"
    using assms(2) by (simp add: y_def task_id_spread)
  with assms(1) obtain i where
    i: "findIndex (\<lambda>t. task_id t = taskId) (tasks s) = Some i" "tasks s ! i = task"
      "find (\<lambda>t. task_id t = taskId) ((tasks s)[i := y]) = Some y"
    using find_update_first [of "\<lambda>t. task_id t = taskId" "tasks s" task y] by blast
  then show ?thesis
    by (simp add: updateTask_def new_Date_def Let_def y_def)
qed

lemma invoked_updateTask [simp]: "invoked (updateTask e taskId updates s) = invoked s"
  by (simp add: updateTask_def new_Date_def Let_def split: option.splits)

lemma ids_updateTask:
  assumes "u_id updates = None"
  shows "map task_id (tasks (updateTask e taskId updates s)) = map task_id (tasks s)"
proof (cases "findIndex (\<lambda>t. task_id t = taskId) (tasks s)")
  case None
  then show ?thesis
    by (simp add: updateTask_def)
next
  case (Some i)
  then have "i < length (tasks s)"
    by (simp add: findIndex_Some)
  then show ?thesis
    using Some assms
    by (simp add: updateTask_def new_Date_def Let_def map_update_same task_id_spread)
qed

lemma ids_toggleTaskActive:
  "map task_id (tasks (toggleTaskActive e taskId s)) = map task_id (tasks s)"
proof (cases "findIndex (\<lambda>t. task_id t = taskId) (tasks s)")
  case None
  then show ?thesis
    by (simp add: toggleTaskActive_def)
next
  case (Some i)
  then have "i < length (tasks s)"
    by (simp add: findIndex_Some)
  then show ?thesis
    using Some
    by (simp add: toggleTaskActive_def new_Date_def Let_def map_update_same)
qed

lemma ids_deleteTask:
  "map task_id (tasks (deleteTask e taskId s)) = filter (\<lambda>i. i \<noteq> taskId) (map task_id (tasks s))"
  by (simp add: deleteTask_def Let_def filter_map comp_def)

lemma ids_addTask:
  "map task_id (tasks (snd (addTask e task rnd s)))
   = map task_id (tasks s) @ [task_id (fst (addTask e task rnd s))]"
  by (simp add: addTask_def Let_def)

lemma invoked_runTask_catch [simp]:
  "invoked (runTask_catch e closure taskId err s) = invoked s"
  by (simp add: runTask_catch_def new_Date_def Let_def split: option.splits)

lemma ids_runTask_catch:
  "map task_id (tasks (runTask_catch e closure taskId err s)) = map task_id (tasks s)"
  by (simp add: runTask_catch_def new_Date_def Let_def ids_updateTask no_updates_def
      split: option.splits)

lemma invoked_runTask: "invoked (runTask e closure taskId s) = invoked s @ [taskId]"
  by (simp add: runTask_def new_Date_def Let_def
      split: option.splits outcome.splits sum.splits prod.splits)

lemma ids_runTask:
  "map task_id (tasks (runTask e closure taskId s)) = map task_id (tasks s)"
  by (simp add: runTask_def new_Date_def Let_def ids_runTask_catch ids_updateTask no_updates_def
      split: option.splits outcome.splits sum.splits prod.splits)

lemma runTask_without_callback_succeeds:
  assumes "onTaskRun e = None"
    and "find (\<lambda>t. task_id t = taskId) (tasks s) = Some task"
    and "calculateNextRunTime e (stackLimit e) task (Suc (ticks s)) = (Inr next, k)"
  shows "find (\<lambda>t. task_id t = taskId) (tasks (runTask e (tasks s) taskId s))
         = Some (task\<lparr>nextRunTime := next,
                      lastRunTime := Some (Some (clock e (ticks s))),
                      lastRunStatus := Some Success,
                      updatedAt := Some (clock e k)\<rparr>)"
proof -
  define s3 where "s3 = s\<lparr>invoked := invoked s @ [taskId], currentTask := Some task, ticks := k\<rparr>"
  define upd where "upd = no_updates\<lparr>u_lastRunTime := Some (Some (Some (clock e (ticks s)))),
                                      u_lastRunStatus := Some (Some Success),
                                      u_nextRunTime := Some next\<rparr>"
  have "find (\<lambda>t. task_id t = taskId) (tasks s3) = Some task"
    using assms(2) by (simp add: s3_def)
  moreover have "u_id upd = None"
    by (simp add: upd_def no_updates_def)
  ultimately have "find (\<lambda>t. task_id t = taskId) (tasks (updateTask e taskId upd s3))
      = Some ((spread task upd)\<lparr>updatedAt := Some (clock e (ticks s3))\<rparr>)"
    by (rule find_updateTask)
  moreover have "(spread task upd)\<lparr>updatedAt := Some (clock e k)\<rparr>
      = task\<lparr>nextRunTime := next, lastRunTime := Some (Some (clock e (ticks s))),
             lastRunStatus := Some Success, updatedAt := Some (clock e k)\<rparr>"
    by (simp add: spread_def upd_def no_updates_def override_def)
  moreover have "tasks (runTask e (tasks s) taskId s) = tasks (updateTask e taskId upd s3)"
    using assms
    by (simp add: runTask_def Let_def new_Date_def s3_def upd_def)
  ultimately show ?thesis
    by (simp add: s3_def)
qed

lemma invoked_scan:
  "invoked (foldl (\<lambda>st task. if eligible now task then runTask e closure (task_id task) st else st)
              s xs)
   = invoked s @ map task_id (filter (eligible now) xs)"
  by (induction xs arbitrary: s) (simp_all add: invoked_runTask)

lemma ids_apply_operation:
  "map task_id (tasks (apply_operation e s x))
   = (case x of
        DeleteTask taskId \<Rightarrow> filter (\<lambda>i. i \<noteq> taskId) (map task_id (tasks s))
      | UpdateTask taskId updates \<Rightarrow>
          (if u_id updates = None then map task_id (tasks s)
           else map task_id (tasks (updateTask e taskId updates s)))
      | _ \<Rightarrow> map task_id (tasks s) @ added_id e s x)"
  by (cases x)
    (simp_all add: ids_addTask ids_updateTask ids_toggleTaskActive ids_deleteTask ids_runTask)

lemma ids_step:
  assumes "keeps_ids e s x" and "distinct (map task_id (tasks s))"
  shows "distinct (map task_id (tasks (apply_operation e s x)))"
    and "subseq (map task_id (tasks (apply_operation e s x)) @ rest)
                (map task_id (tasks s) @ added_id e s x @ rest)"
proof -
  show "distinct (map task_id (tasks (apply_operation e s x)))"
    unfolding ids_apply_operation using assms by (cases x) auto
  show "subseq (map task_id (tasks (apply_operation e s x)) @ rest)
               (map task_id (tasks s) @ added_id e s x @ rest)"
  proof (cases x)
    case (DeleteTask taskId)
    have "subseq (filter (\<lambda>i. i \<noteq> taskId) (map task_id (tasks s))) (map task_id (tasks s))"
      by (rule subseq_filter_left)
    then have "subseq (filter (\<lambda>i. i \<noteq> taskId) (map task_id (tasks s)) @ rest)
                      (map task_id (tasks s) @ rest)"
      by (rule list_emb_append_mono) simp
    then show ?thesis
      unfolding ids_apply_operation using DeleteTask by simp
  qed (unfold ids_apply_operation, use assms in simp_all)
qed

subsection \<open>What a scan does to a single task\<close>

text \<open>A run that is started with another id leaves a task as it is. When the ids of the
  collection are pairwise distinct, the lookup of a run finds the task whose id it was
  given, so the tasks handed to the callback by a scan are the eligible ones.\<close>

lemma calls_saveTasks [simp]: "calls (saveTasks e ts s) = calls s"
  by (simp add: saveTasks_def addNotification_def)

lemma calls_addNotification [simp]: "calls (addNotification sev msg s) = calls s"
  by (simp add: addNotification_def)

lemma calls_updateTask [simp]: "calls (updateTask e taskId updates s) = calls s"
  by (simp add: updateTask_def new_Date_def Let_def split: option.splits)

lemma calls_runTask_catch [simp]: "calls (runTask_catch e closure taskId err s) = calls s"
  by (simp add: runTask_catch_def new_Date_def Let_def split: option.splits)

lemma calls_runTask:
  "calls (runTask e closure taskId s)
   = calls s @ (case onTaskRun e of
                  None \<Rightarrow> []
                | Some cb \<Rightarrow> (case find (\<lambda>t. task_id t = taskId) closure of
                               None \<Rightarrow> []
                             | Some task \<Rightarrow> [task]))"
  by (simp add: runTask_def new_Date_def Let_def
      split: option.splits outcome.splits sum.splits prod.splits)

lemma find_own_id:
  "distinct (map task_id xs) \<Longrightarrow> x \<in> set xs \<Longrightarrow> find (\<lambda>t. task_id t = task_id x) xs = Some x"
  by (induction xs) (auto simp: image_iff)

lemma calls_scan:
  assumes "distinct (map task_id closure)" and "set xs \<subseteq> set closure"
  shows "calls (foldl (\<lambda>st task. if eligible now task then runTask e closure (task_id task) st
                                    else st) s xs)
         = calls s @ (case onTaskRun e of None \<Rightarrow> [] | Some cb \<Rightarrow> filter (eligible now) xs)"
  using assms(2)
proof (induction xs arbitrary: s)
  case Nil
  then show ?case
    by (simp split: option.splits)
next
  case (Cons x xs)
  then have "x \<in> set closure" and sub: "set xs \<subseteq> set closure"
    by simp_all
  then have "find (\<lambda>t. task_id t = task_id x) closure = Some x"
    using assms(1) by (simp add: find_own_id)
  then show ?case
    using Cons.IH [OF sub] by (simp add: calls_runTask split: option.splits)
qed

lemma updateTask_other:
  assumes "task_id (tasks s ! j) \<noteq> taskId"
  shows "tasks (updateTask e taskId updates s) ! j = tasks s ! j"
proof (cases "findIndex (\<lambda>t. task_id t = taskId) (tasks s)")
  case None
  then show ?thesis
    by (simp add: updateTask_def)
next
  case (Some i)
  then have "task_id (tasks s ! i) = taskId"
    using findIndex_Some [of "\<lambda>t. task_id t = taskId" "tasks s" i] by simp
  with assms have "i \<noteq> j"
    by auto
  then show ?thesis
    using Some by (simp add: updateTask_def new_Date_def Let_def)
qed

lemma runTask_catch_other:
  assumes "task_id (tasks s ! j) \<noteq> taskId"
  shows "tasks (runTask_catch e closure taskId err s) ! j = tasks s ! j"
  using assms
  by (simp add: runTask_catch_def new_Date_def Let_def updateTask_other split: option.splits)

lemma runTask_other:
  assumes "task_id (tasks s ! j) \<noteq> taskId"
  shows "tasks (runTask e closure taskId s) ! j = tasks s ! j"
  using assms
  by (simp add: runTask_def new_Date_def Let_def updateTask_other runTask_catch_other
      split: option.splits outcome.splits sum.splits prod.splits)

lemma scan_other:
  assumes "\<forall>t\<in>set xs. eligible now t \<longrightarrow> task_id (tasks s ! j) \<noteq> task_id t"
  shows "tasks (foldl (\<lambda>st task. if eligible now task then runTask e closure (task_id task) st
                                    else st) s xs) ! j
         = tasks s ! j"
  using assms
proof (induction xs arbitrary: s)
  case Nil
  then show ?case by simp
next
  case (Cons x xs)
  define s' where "s' = (if eligible now x then runTask e closure (task_id x) s else s)"
  have keep: "tasks s' ! j = tasks s ! j"
    using Cons.prems unfolding s'_def by (simp add: runTask_other)
  then have "\<forall>t\<in>set xs. eligible now t \<longrightarrow> task_id (tasks s' ! j) \<noteq> task_id t"
    using Cons.prems by simp
  from Cons.IH [OF this] keep show ?case
    by (simp add: s'_def)
qed

subsection \<open>The example states\<close>

lemma callback_env_fields:
  "stackLimit callback_env = 3"
  "onTaskRun callback_env = Some resolving_callback"
  "clock callback_env n = 1706695200000 + int n"
  "setItem callback_env ts = True"
  by (simp_all add: callback_env_def example_env_def example_clock_def accept_def)

lemma example_task_fields:
  "task_id example_task = ''t1''"
  "isActive example_task"
  "nextRunTime example_task = Some 1706000000000"
  "lastRunStatus example_task = None"
  by (simp_all add: example_task_def)

lemma scan_example_next:
  "calculateNextRunTime callback_env 3 (example_task\<lparr>isActive := False\<rparr>) (Suc (Suc (Suc 0)))
   = (Inr (Some 1707037200000), 5)"
  by code_simp

lemma shared_id_state_tasks:
  "tasks shared_id_state
   = [example_task\<lparr>isActive := False\<rparr>, example_task\<lparr>updatedAt := Some 1706695200000\<rparr>]"
  "ticks shared_id_state = 1"
  "calls shared_id_state = []"
  by (simp_all add: shared_id_state_def mixed_state_def example_state_def example_task_def
      updateTask_def new_Date_def Let_def spread_def override_def no_updates_def
      callback_env_fields saveTasks_def)

section \<open>The claims\<close>

subsection \<open>Claim C1\<close>

text \<open>
  Claim C1 fails on the code for a custom schedule that is not of the form hour:minute.
  With \<^verbatim>\<open>customCron = "not-a-time"\<close> the parsed hour is \<open>NaN\<close>, the setters turn
  \<^verbatim>\<open>nextRun\<close> into an Invalid Date, the comparison with \<^verbatim>\<open>now\<close> is false, and the function
  returns the Invalid Date (time value \<open>None\<close>) at once: no timestamp after \<^verbatim>\<open>now\<close>. This
  holds for every clock, every time zone offset and every stack budget of at least one
  activation.
\<close>

theorem calculateNextRunTime_malformed_cron:
  "calculateNextRunTime e (Suc room)
     (task\<lparr>frequency := ''custom'', customCron := Some ''not-a-time''\<rparr>) k
   = (Inr None, k + 2)"
  by (simp add: candidate_custom custom_rule_not_a_time date_le_def)

subsection \<open>Claim C2\<close>

text \<open>
  Claim C2 fails on the code: the weekly rule adds \<^verbatim>\<open>7 - getDay()\<close> days, which leads to
  the next Sunday. Called on Wednesday 2024-01-31 at 10:00:00.000 UTC, the function returns
  2024-02-04 at 09:00:00.000 UTC, whose day of the week is 0, Sunday. Lemma
  \<open>weekly_rule_sunday\<close> shows the same for every valid reference time.
\<close>

theorem weekly_lands_on_sunday:
  "getDay (localTZA example_env) (Some (clock example_env 0)) = num 3 \<and>
   calculateNextRunTime example_env 1 example_task 0 = (Inr (Some 1707037200000), 2) \<and>
   getDay (localTZA example_env) (Some 1707037200000) = num 0 \<and>
   getHours (localTZA example_env) (Some 1707037200000) = num 9"
  by code_simp

subsection \<open>Claim C3\<close>

text \<open>
  Claim C3 fails on the code: the recursive call passes the same task with another
  \<^verbatim>\<open>lastRunTime\<close>, which the function never reads, so nothing is advanced. For the custom
  schedule \<^verbatim>\<open>"-48:00"\<close> the candidate is midnight of the day before the clock reading, and
  on a steady clock every activation calls the next one: whatever the stack budget
  \<open>room\<close>, the call uses all of it and ends in the stack exhaustion error, never in a date.
\<close>

theorem calculateNextRunTime_exhausts_stack:
  assumes "steady e k (2 * room)"
  shows "calculateNextRunTime e room
           (task\<lparr>frequency := ''custom'', customCron := Some ''-48:00''\<rparr>) k
         = (Inl StackExhausted, k + 2 * room)"
  using _ _ assms by (rule custom_neg48_exhausts) simp_all

theorem calculateNextRunTime_exhausts_stack_witness:
  "steady example_env 0 (2 * 3) \<and>
   calculateNextRunTime example_env 3
     (example_task\<lparr>frequency := ''custom'', customCron := Some ''-48:00''\<rparr>) 0
   = (Inl StackExhausted, 6)"
proof -
  have s: "steady example_env 0 (2 * 3)"
    by (simp add: steady_def example_env_def example_clock_def msPerDay_def)
  from calculateNextRunTime_exhausts_stack [OF s, of example_task] s show ?thesis
    by simp
qed

subsection \<open>Claim C4\<close>

text \<open>
  Claim C4 fails on the code when the day of the month of \<^verbatim>\<open>now\<close> does not exist in the
  following month: \<^verbatim>\<open>setMonth\<close> runs before \<^verbatim>\<open>setDate(1)\<close> and overflows into the month
  after. Called on 2024-01-31 (month 0) the function returns 2024-03-01 at 09:00:00.000 UTC,
  in month 2, March, and not in February.
\<close>

theorem monthly_skips_february:
  "getMonth (localTZA example_env) (Some (clock example_env 0)) = num 0 \<and>
   calculateNextRunTime example_env 1 (example_task\<lparr>frequency := ''monthly''\<rparr>) 0
     = (Inr (Some 1709283600000), 2) \<and>
   getMonth (localTZA example_env) (Some 1709283600000) = num 2 \<and>
   getDate (localTZA example_env) (Some 1709283600000) = num 1 \<and>
   getHours (localTZA example_env) (Some 1709283600000) = num 9"
  by code_simp

subsection \<open>Claim C5\<close>

text \<open>
  Claim C5, as stated, fails in two ways. \<^verbatim>\<open>updateTask\<close> spreads its partial fields over the
  task, so an \<^verbatim>\<open>id\<close> key among them replaces the id: with two tasks \<open>t1\<close> and \<open>t2\<close>, updating
  \<open>t1\<close> with \<open>id = t2\<close> changes the id of the first task and leaves two tasks with the same
  id. And \<^verbatim>\<open>addTask\<close> does not compare the id it generates with the collection: two calls in
  the same millisecond that draw the same random characters add two tasks with the same id.
\<close>

theorem updateTask_overwrites_id_counterexample:
  "map task_id (tasks two_tasks_state) = [''t1'', ''t2''] \<and>
   map task_id (tasks (apply_operations example_env
                         [UpdateTask ''t1'' (no_updates\<lparr>u_id := Some ''t2''\<rparr>)] two_tasks_state))
   = [''t2'', ''t2''] \<and>
   map task_id (tasks (apply_operations still_env
                         [AddTask example_task ''k3x9q0a'', AddTask example_task ''k3x9q0a'']
                         (example_state\<lparr>tasks := []\<rparr>)))
   = [''task_1706695200000_k3x9q0a'', ''task_1706695200000_k3x9q0a'']"
proof (intro conjI)
  show "map task_id (tasks two_tasks_state) = [''t1'', ''t2'']"
    by (simp add: two_tasks_state_def example_task_def)
  show "map task_id (tasks (apply_operations example_env
                         [UpdateTask ''t1'' (no_updates\<lparr>u_id := Some ''t2''\<rparr>)] two_tasks_state))
        = [''t2'', ''t2'']"
    by (simp add: two_tasks_state_def example_state_def example_task_def apply_operations_def
        updateTask_def new_Date_def Let_def spread_def override_def no_updates_def)
  show "map task_id (tasks (apply_operations still_env
                         [AddTask example_task ''k3x9q0a'', AddTask example_task ''k3x9q0a'']
                         (example_state\<lparr>tasks := []\<rparr>)))
        = [''task_1706695200000_k3x9q0a'', ''task_1706695200000_k3x9q0a'']"
    by (simp add: apply_operations_def ids_addTask addTask_def Let_def still_env_def
        still_clock_def example_env_def example_state_def int_to_string_def digit_char_def)
qed

text \<open>
  Claim C5, amended. Take a collection with pairwise distinct ids and a sequence of
  lifecycle operations in which no \<^verbatim>\<open>updateTask\<close> carries an \<^verbatim>\<open>id\<close> key and every id that
  \<^verbatim>\<open>addTask\<close> generates is new to the collection at that moment. Then the ids are pairwise
  distinct afterwards, and the list of ids afterwards is a subsequence of the ids before
  followed by the generated ids: tasks are removed or appended, and no task that stays
  changes its id or its place relative to the others.
\<close>

theorem ids_stable_under_operations:
  assumes "distinct (map task_id (tasks s))" and "all_keep_ids e s ops"
  shows "distinct (map task_id (tasks (apply_operations e ops s))) \<and>
         subseq (map task_id (tasks (apply_operations e ops s)))
                (map task_id (tasks s) @ added_ids e s ops)"
  using assms
proof (induction ops arbitrary: s)
  case Nil
  then show ?case
    by (simp add: apply_operations_def)
next
  case (Cons x xs)
  define s' where "s' = apply_operation e s x"
  have keep: "keeps_ids e s x" and rest: "all_keep_ids e s' xs"
    using Cons.prems(2) by (simp_all add: s'_def)
  have d: "distinct (map task_id (tasks s'))"
    unfolding s'_def using keep Cons.prems(1) by (rule ids_step(1))
  from Cons.IH [OF d rest] have
    fin: "distinct (map task_id (tasks (apply_operations e xs s')))" and
    sub: "subseq (map task_id (tasks (apply_operations e xs s')))
                 (map task_id (tasks s') @ added_ids e s' xs)"
    by simp_all
  have "subseq (map task_id (tasks s') @ added_ids e s' xs)
               (map task_id (tasks s) @ added_id e s x @ added_ids e s' xs)"
    unfolding s'_def using keep Cons.prems(1) by (rule ids_step(2))
  with sub have "subseq (map task_id (tasks (apply_operations e xs s')))
               (map task_id (tasks s) @ added_id e s x @ added_ids e s' xs)"
    by (rule subseq_order.trans)
  moreover have "apply_operations e (x # xs) s = apply_operations e xs s'"
    by (simp add: apply_operations_def s'_def)
  ultimately show ?case
    using fin by (simp add: s'_def)
qed


theorem ids_stable_under_operations_witness:
  "distinct (map task_id (tasks example_state)) \<and>
   all_keep_ids example_env example_state example_operations \<and>
   distinct (map task_id (tasks (apply_operations example_env example_operations example_state)))"
proof -
  have d: "distinct (map task_id (tasks example_state))"
    by (simp add: example_state_def)
  have k: "all_keep_ids example_env example_state example_operations"
    by (simp add: example_operations_def example_state_def example_task_def addTask_def Let_def
        no_updates_def)
  from ids_stable_under_operations [OF d k] d k show ?thesis
    by simp
qed

subsection \<open>Claim C6\<close>

text \<open>
  Claim C6. When the execution callback rejects for the task that \<^verbatim>\<open>runTask\<close> looked up,
  the task is afterwards marked as failed, its \<^verbatim>\<open>lastRunTime\<close> is the clock reading taken
  in the \<^verbatim>\<open>catch\<close> block, and every other field except \<^verbatim>\<open>updatedAt\<close>, \<^verbatim>\<open>nextRunTime\<close>
  among them, is what it was before the run.
\<close>

theorem runTask_callback_rejects:
  assumes "onTaskRun e = Some cb"
    and "find (\<lambda>t. task_id t = taskId) (tasks s) = Some task"
    and "cb task = Rejected err"
  shows "find (\<lambda>t. task_id t = taskId) (tasks (runTask e (tasks s) taskId s))
         = Some (task\<lparr>lastRunTime := Some (Some (clock e (ticks s))),
                      lastRunStatus := Some Failure,
                      updatedAt := Some (clock e (Suc (ticks s)))\<rparr>)"
proof -
  define s2 where "s2 = s\<lparr>invoked := invoked s @ [taskId], currentTask := Some task,
                           calls := calls s @ [task]\<rparr>"
  define upd where "upd = no_updates\<lparr>u_lastRunTime := Some (Some (Some (clock e (ticks s)))),
                                      u_lastRunStatus := Some (Some Failure)\<rparr>"
  define s3 where "s3 = updateTask e taskId upd (s2\<lparr>ticks := Suc (ticks s)\<rparr>)"
  have "find (\<lambda>t. task_id t = taskId) (tasks (s2\<lparr>ticks := Suc (ticks s)\<rparr>)) = Some task"
    using assms(2) by (simp add: s2_def)
  moreover have "u_id upd = None"
    by (simp add: upd_def no_updates_def)
  ultimately have "find (\<lambda>t. task_id t = taskId) (tasks s3)
      = Some ((spread task upd)\<lparr>updatedAt := Some (clock e (ticks (s2\<lparr>ticks := Suc (ticks s)\<rparr>)))\<rparr>)"
    unfolding s3_def by (rule find_updateTask)
  moreover have "(spread task upd)\<lparr>updatedAt := Some (clock e (Suc (ticks s)))\<rparr>
      = task\<lparr>lastRunTime := Some (Some (clock e (ticks s))), lastRunStatus := Some Failure,
             updatedAt := Some (clock e (Suc (ticks s)))\<rparr>"
    by (simp add: spread_def upd_def no_updates_def override_def)
  moreover have "tasks (runTask e (tasks s) taskId s) = tasks s3"
    using assms
    by (simp add: runTask_def runTask_catch_def Let_def new_Date_def addNotification_def
        s3_def s2_def upd_def)
  ultimately show ?thesis
    by simp
qed

theorem runTask_callback_rejects_witness:
  "find (\<lambda>t. task_id t = ''t1'')
     (tasks (runTask (example_env\<lparr>onTaskRun := Some failing_callback\<rparr>)
               (tasks example_state) ''t1'' example_state))
   = Some (example_task\<lparr>lastRunTime := Some (Some 1706695200000),
                        lastRunStatus := Some Failure,
                        updatedAt := Some 1706695200001\<rparr>)"
  using runTask_callback_rejects [of "example_env\<lparr>onTaskRun := Some failing_callback\<rparr>"
      failing_callback "''t1''" example_state example_task "Some (Thrown ''request failed'')"]
  by (simp add: example_env_def example_state_def example_task_def failing_callback_def
      example_clock_def)

subsection \<open>Claim C7\<close>

text \<open>
  Claim C7. \<^verbatim>\<open>updateTask\<close> with an id that no task of the collection has returns the state
  it was given with one more notification, the error notification of line 95: the
  collection, its order and every other part of the state are unchanged. The function has
  no branch that throws.
\<close>

theorem updateTask_unknown_id:
  assumes "taskId \<notin> task_id ` set (tasks s)"
  shows "updateTask e taskId updates s
         = s\<lparr>notifications := notifications s @ [(Error, UpdateTaskNotFound)]\<rparr>"
proof -
  have "findIndex (\<lambda>t. task_id t = taskId) (tasks s) = None"
    using assms by (intro findIndex_None) auto
  then show ?thesis
    by (simp add: updateTask_def addNotification_def)
qed

theorem updateTask_unknown_id_witness:
  "updateTask example_env ''t2'' (no_updates\<lparr>u_isActive := Some False\<rparr>) example_state
   = example_state\<lparr>notifications := [(Error, UpdateTaskNotFound)]\<rparr>"
  using updateTask_unknown_id [of "''t2''" example_state example_env
      "no_updates\<lparr>u_isActive := Some False\<rparr>"]
  by (simp add: example_state_def example_task_def)

subsection \<open>Claim C8\<close>

text \<open>
  Claim C8, as stated, fails when two tasks have the same id. The scan tests the condition
  of line 256 on each task but starts the run with the id alone, and \<^verbatim>\<open>runTask\<close> looks the
  id up again and takes the first task that has it. From an inactive task \<open>t1\<close> and an
  active task \<open>t2\<close>, both overdue, \<^verbatim>\<open>updateTask\<close> with \<open>id = t1\<close> on the second gives two
  tasks with the id \<open>t1\<close>; the next scan hands the inactive task to the callback and records
  a successful run on it, and the active task is not run.
\<close>

theorem scan_runs_inactive_task_counterexample:
  "map task_id (tasks mixed_state) = [''t1'', ''t2''] \<and>
   map task_id (tasks shared_id_state) = [''t1'', ''t1''] \<and>
   map isActive (tasks shared_id_state) = [False, True] \<and>
   calls (checkTasks callback_env shared_id_state) = [tasks shared_id_state ! 0] \<and>
   map lastRunStatus (tasks (checkTasks callback_env shared_id_state)) = [Some Success, None]"
proof (intro conjI)
  show "map task_id (tasks mixed_state) = [''t1'', ''t2'']"
    by (simp add: mixed_state_def example_task_def)
  show "map task_id (tasks shared_id_state) = [''t1'', ''t1'']"
    by (simp add: shared_id_state_tasks example_task_def)
  show "map isActive (tasks shared_id_state) = [False, True]"
    by (simp add: shared_id_state_tasks example_task_def)
  have run: "checkTasks callback_env shared_id_state
      = runTask callback_env (tasks shared_id_state) ''t1'' (shared_id_state\<lparr>ticks := Suc (Suc 0)\<rparr>)"
    by (simp add: checkTasks_def new_Date_def Let_def shared_id_state_tasks eligible_def
        date_le_def callback_env_fields example_task_fields)
  show "calls (checkTasks callback_env shared_id_state) = [tasks shared_id_state ! 0]"
    unfolding run
    by (simp add: runTask_def new_Date_def Let_def shared_id_state_tasks callback_env_fields
        resolving_callback_def scan_example_next updateTask_def saveTasks_def
        addNotification_def example_task_fields)
  show "map lastRunStatus (tasks (checkTasks callback_env shared_id_state)) = [Some Success, None]"
    unfolding run
    by (simp add: runTask_def new_Date_def Let_def shared_id_state_tasks callback_env_fields
        resolving_callback_def scan_example_next updateTask_def saveTasks_def
        addNotification_def spread_def override_def no_updates_def example_task_fields)
qed

text \<open>
  Claim C8, amended. In a scan over a collection whose ids are pairwise distinct, a task
  whose \<^verbatim>\<open>isActive\<close> is false is not selected for execution, whatever its \<^verbatim>\<open>nextRunTime\<close>:
  the scan does not invoke \<^verbatim>\<open>runTask\<close> with its id, does not hand it to the execution
  callback, and leaves it in its place in the collection exactly as it was.
\<close>

theorem checkTasks_leaves_inactive:
  assumes "distinct (map task_id (tasks s))"
    and "j < length (tasks s)" and "\<not> isActive (tasks s ! j)"
  shows "task_id (tasks s ! j) \<notin> set (drop (length (invoked s)) (invoked (checkTasks e s))) \<and>
         tasks s ! j \<notin> set (drop (length (calls s)) (calls (checkTasks e s))) \<and>
         tasks (checkTasks e s) ! j = tasks s ! j"
proof -
  define now where "now = Some (clock e (ticks s))"
  define scan where "scan = (\<lambda>st task. if eligible now task
                                         then runTask e (tasks s) (task_id task) st else st)"
  define s1 where "s1 = s\<lparr>ticks := Suc (ticks s)\<rparr>"
  have check: "checkTasks e s = foldl scan s1 (tasks s)"
    by (simp add: checkTasks_def new_Date_def Let_def scan_def now_def s1_def)
  have other: "task_id (tasks s ! j) \<noteq> task_id t" if "t \<in> set (tasks s)" "eligible now t" for t
  proof
    assume same: "task_id (tasks s ! j) = task_id t"
    have "inj_on task_id (set (tasks s))"
      using assms(1) by (simp add: distinct_map)
    moreover have "tasks s ! j \<in> set (tasks s)"
      using assms(2) by simp
    ultimately have "t = tasks s ! j"
      using that(1) same by (auto dest: inj_onD)
    with that(2) assms(3) show False
      by (simp add: eligible_def)
  qed
  have "task_id (tasks s ! j) \<notin> task_id ` set (filter (eligible now) (tasks s))"
  proof
    assume "task_id (tasks s ! j) \<in> task_id ` set (filter (eligible now) (tasks s))"
    then obtain t where "t \<in> set (tasks s)" "eligible now t" "task_id (tasks s ! j) = task_id t"
      by auto
    with other show False
      by blast
  qed
  moreover
  have "invoked (checkTasks e s) = invoked s @ map task_id (filter (eligible now) (tasks s))"
    unfolding check scan_def by (simp add: invoked_scan s1_def)
  ultimately
  have A: "task_id (tasks s ! j) \<notin> set (drop (length (invoked s)) (invoked (checkTasks e s)))"
    by simp
  have "calls (checkTasks e s)
        = calls s @ (case onTaskRun e of None \<Rightarrow> [] | Some cb \<Rightarrow> filter (eligible now) (tasks s))"
    unfolding check scan_def using assms(1) by (simp add: calls_scan s1_def)
  then have B: "tasks s ! j \<notin> set (drop (length (calls s)) (calls (checkTasks e s)))"
    using assms(3) by (auto simp: eligible_def split: option.splits)
  have "\<forall>t\<in>set (tasks s). eligible now t \<longrightarrow> task_id (tasks s1 ! j) \<noteq> task_id t"
    using other by (simp add: s1_def)
  then have "tasks (foldl scan s1 (tasks s)) ! j = tasks s1 ! j"
    unfolding scan_def by (rule scan_other)
  then have C: "tasks (checkTasks e s) ! j = tasks s ! j"
    by (simp add: check s1_def)
  from A B C show ?thesis
    by simp
qed

theorem checkTasks_leaves_inactive_witness:
  "distinct (map task_id (tasks mixed_state)) \<and>
   \<not> isActive (tasks mixed_state ! 0) \<and>
   ''t1'' \<notin> set (invoked (checkTasks callback_env mixed_state)) \<and>
   example_task\<lparr>isActive := False\<rparr> \<notin> set (calls (checkTasks callback_env mixed_state)) \<and>
   tasks (checkTasks callback_env mixed_state) ! 0 = example_task\<lparr>isActive := False\<rparr>"
proof -
  have d: "distinct (map task_id (tasks mixed_state))"
    by (simp add: mixed_state_def example_task_def)
  have l: "0 < length (tasks mixed_state)"
    by (simp add: mixed_state_def)
  have i: "\<not> isActive (tasks mixed_state ! 0)"
    by (simp add: mixed_state_def)
  from checkTasks_leaves_inactive [OF d l i, of callback_env] d i show ?thesis
    by (simp add: mixed_state_def example_state_def example_task_fields)
qed

subsection \<open>Claim C9\<close>

text \<open>
  Claim C9. From an empty collection, \<^verbatim>\<open>addTask\<close> followed by \<^verbatim>\<open>deleteTask\<close> with the id
  of the task that \<^verbatim>\<open>addTask\<close> returned leaves the collection empty.
\<close>

theorem add_then_delete_empty:
  assumes "tasks s = []"
  shows "tasks (deleteTask e (task_id (fst (addTask e task rnd s))) (snd (addTask e task rnd s))) = []"
  using assms by (simp add: addTask_def deleteTask_def addNotification_def Let_def)

theorem add_then_delete_empty_witness:
  "tasks (deleteTask example_env
            (task_id (fst (addTask example_env example_task ''k3x9q0a'' (example_state\<lparr>tasks := []\<rparr>))))
            (snd (addTask example_env example_task ''k3x9q0a'' (example_state\<lparr>tasks := []\<rparr>)))) = []"
  using add_then_delete_empty [of "example_state\<lparr>tasks := []\<rparr>" example_env example_task "''k3x9q0a''"]
  by simp

subsection \<open>Claim C10\<close>

text \<open>
  Claim C10 fails on the code for the same task: without an execution callback,
  \<^verbatim>\<open>runTask\<close> calls \<^verbatim>\<open>calculateNextRunTime\<close> inside its \<^verbatim>\<open>try\<close> block, the call exhausts
  the stack, and the \<^verbatim>\<open>catch\<close> block marks the task as failed; \<^verbatim>\<open>nextRunTime\<close> keeps its
  old value.
\<close>

theorem runTask_without_callback_fails:
  assumes "onTaskRun e = None"
    and "find (\<lambda>t. task_id t = taskId) (tasks s) = Some task"
    and "frequency task = ''custom''" and "customCron task = Some ''-48:00''"
    and "steady e (Suc (ticks s)) (2 * stackLimit e)"
  shows "find (\<lambda>t. task_id t = taskId) (tasks (runTask e (tasks s) taskId s))
         = Some (task\<lparr>lastRunTime := Some (Some (clock e (Suc (ticks s) + 2 * stackLimit e))),
                      lastRunStatus := Some Failure,
                      updatedAt := Some (clock e (Suc (Suc (ticks s) + 2 * stackLimit e)))\<rparr>)"
proof -
  define K where "K = Suc (ticks s) + 2 * stackLimit e"
  define s3 where "s3 = s\<lparr>invoked := invoked s @ [taskId], currentTask := Some task,
                           ticks := Suc K\<rparr>"
  define upd where "upd = no_updates\<lparr>u_lastRunTime := Some (Some (Some (clock e K))),
                                      u_lastRunStatus := Some (Some Failure)\<rparr>"
  have calc: "calculateNextRunTime e (stackLimit e) task (Suc (ticks s)) = (Inl StackExhausted, K)"
    unfolding K_def using assms(3,4,5) by (rule custom_neg48_exhausts)
  have "find (\<lambda>t. task_id t = taskId) (tasks s3) = Some task"
    using assms(2) by (simp add: s3_def)
  moreover have "u_id upd = None"
    by (simp add: upd_def no_updates_def)
  ultimately have "find (\<lambda>t. task_id t = taskId) (tasks (updateTask e taskId upd s3))
      = Some ((spread task upd)\<lparr>updatedAt := Some (clock e (ticks s3))\<rparr>)"
    by (rule find_updateTask)
  moreover have "(spread task upd)\<lparr>updatedAt := Some (clock e (Suc K))\<rparr>
      = task\<lparr>lastRunTime := Some (Some (clock e K)), lastRunStatus := Some Failure,
             updatedAt := Some (clock e (Suc K))\<rparr>"
    by (simp add: spread_def upd_def no_updates_def override_def)
  moreover have "tasks (runTask e (tasks s) taskId s) = tasks (updateTask e taskId upd s3)"
    using assms(1,2) calc
    by (simp add: runTask_def runTask_catch_def Let_def new_Date_def addNotification_def
        s3_def upd_def)
  ultimately show ?thesis
    by (simp add: s3_def K_def)
qed

theorem runTask_without_callback_fails_witness:
  "find (\<lambda>t. task_id t = ''t1'')
     (tasks (runTask example_env
               (tasks (example_state\<lparr>tasks := [example_task\<lparr>frequency := ''custom'', customCron := Some ''-48:00''\<rparr>]\<rparr>))
               ''t1''
               (example_state\<lparr>tasks := [example_task\<lparr>frequency := ''custom'', customCron := Some ''-48:00''\<rparr>]\<rparr>)))
   = Some (example_task\<lparr>frequency := ''custom'', customCron := Some ''-48:00'',
                        lastRunTime := Some (Some 1706695200007),
                        lastRunStatus := Some Failure,
                        updatedAt := Some 1706695200008\<rparr>)"
proof -
  have s: "steady example_env (Suc 0) (2 * 3)"
    by (simp add: steady_def example_env_def example_clock_def msPerDay_def)
  show ?thesis
    using runTask_without_callback_fails [of example_env "''t1''"
        "example_state\<lparr>tasks := [example_task\<lparr>frequency := ''custom'', customCron := Some ''-48:00''\<rparr>]\<rparr>"
        "example_task\<lparr>frequency := ''custom'', customCron := Some ''-48:00''\<rparr>"] s
    by (simp add: example_env_def example_state_def example_task_def example_clock_def)
qed

end
